theory Spec2Isabelle
  imports Main
begin

section \<open>JavaScript strings and buffers\<close>

text \<open>
  A JavaScript string is a sequence of UTF-16 code units; a Node \<open>Buffer\<close> is a
  sequence of bytes. Both are lists of naturals here. \<open>ustr\<close> reads an ASCII
  literal as a JavaScript string.
\<close>

type_synonym jsstring = "nat list"
type_synonym buffer = "nat list"

definition ustr :: "string \<Rightarrow> jsstring" where
  "ustr s = map of_char s"

text \<open>
  \<open>Buffer.from(s)\<close> (encoding \<open>utf8\<close>, also what \<open>hmac.update(body, "utf8")\<close> and a
  string key do): a surrogate pair becomes four bytes, a lone surrogate becomes
  U+FFFD, that is \<open>EF BF BD\<close>.
\<close>

fun utf8 :: "jsstring \<Rightarrow> buffer" where
  "utf8 [] = []"
| "utf8 [c] =
     (if c < 0x80 then [c]
      else if c < 0x800 then [0xC0 + c div 64, 0x80 + c mod 64]
      else if 0xD800 \<le> c \<and> c < 0xE000 then [0xEF, 0xBF, 0xBD]
      else [0xE0 + c div 4096, 0x80 + (c div 64) mod 64, 0x80 + c mod 64])"
| "utf8 (c # d # ds) =
     (if c < 0x80 then c # utf8 (d # ds)
      else if c < 0x800 then (0xC0 + c div 64) # (0x80 + c mod 64) # utf8 (d # ds)
      else if 0xD800 \<le> c \<and> c < 0xDC00 \<and> 0xDC00 \<le> d \<and> d < 0xE000 then
        (let cp = 0x10000 + (c - 0xD800) * 1024 + (d - 0xDC00)
         in (0xF0 + cp div 262144) # (0x80 + (cp div 4096) mod 64) #
            (0x80 + (cp div 64) mod 64) # (0x80 + cp mod 64) # utf8 ds)
      else if 0xD800 \<le> c \<and> c < 0xE000 then 0xEF # 0xBF # 0xBD # utf8 (d # ds)
      else (0xE0 + c div 4096) # (0x80 + (c div 64) mod 64) # (0x80 + c mod 64) #
           utf8 (d # ds))"

text \<open>\<open>digest("hex")\<close>: two lower-case hexadecimal digits for each byte.\<close>

definition hexDigit :: "nat \<Rightarrow> nat" where
  "hexDigit n = (if n < 10 then 48 + n else 87 + n)"

definition hex :: "buffer \<Rightarrow> jsstring" where
  "hex bs = concat (map (\<lambda>b. [hexDigit (b div 16 mod 16), hexDigit (b mod 16)]) bs)"

text \<open>\<open>provided.replace(/^sha256=/, "")\<close>: one leading occurrence is removed.\<close>

definition stripPrefix :: "jsstring \<Rightarrow> jsstring" where
  "stripPrefix p = (if take 7 p = ustr ''sha256='' then drop 7 p else p)"

section \<open>Signature verification\<close>

datatype error = TypeError | RangeError | SyntaxError | Error jsstring

text \<open>
  \<open>crypto.timingSafeEqual(a, b)\<close> throws a \<open>RangeError\<close> when the two buffers differ
  in length and otherwise tells whether they hold the same bytes.
\<close>

definition timingSafeEqual :: "buffer \<Rightarrow> buffer \<Rightarrow> error + bool" where
  "timingSafeEqual a b = (if length a \<noteq> length b then Inl RangeError else Inr (a = b))"

text \<open>
  \<open>verifyHmacSha256\<close> of \<open>route.ts\<close>. The HMAC-SHA256 primitive of Node's
  \<open>crypto\<close> is the parameter \<open>hmac\<close>: from the key bytes and the message bytes to
  the 32 digest bytes, or an exception. Every exception inside the \<open>try\<close> block
  ends in \<open>return false\<close>.
\<close>

definition verifyHmacSha256 ::
  "(buffer \<Rightarrow> buffer \<Rightarrow> error + buffer) \<Rightarrow> jsstring \<Rightarrow> jsstring \<Rightarrow> jsstring \<Rightarrow> bool" where
  "verifyHmacSha256 hmac body secret provided =
     (case hmac (utf8 secret) (utf8 body) of
        Inl e \<Rightarrow> False
      | Inr digest \<Rightarrow>
          (let h = hex digest;
               a = utf8 h;
               b = utf8 (stripPrefix provided)
           in if length a = length b
              then (case timingSafeEqual a b of Inl e \<Rightarrow> False | Inr r \<Rightarrow> r)
              else False))"

section \<open>JavaScript values\<close>

text \<open>
  The values \<open>JSON.parse\<close> produces. A number (an IEEE double) is kept as the two
  observations the code makes of it: whether it is zero (its truthiness) and the text
  \<open>String\<close> gives for it. An object is the list of its own properties; a key's first
  entry is its value. \<open>undefined\<close> is \<open>None\<close> of \<open>jsval\<close>.
\<close>

datatype number = Number (isZero: bool) (numText: jsstring)

datatype jvalue =
    JNull
  | JBool bool
  | JNum number
  | JStr jsstring
  | JArr "jvalue list"
  | JObj "(jsstring \<times> jvalue) list"

type_synonym jsval = "jvalue option"

text \<open>
  \<open>x.k\<close> and \<open>x["k"]\<close> on a value that is not \<open>null\<close>: an object yields its
  property, every other value yields \<open>undefined\<close> (none of the keys read anywhere below
  is \<open>length\<close>, an index, or a property of a prototype). \<open>x?.k\<close> is \<open>undefined\<close> on
  \<open>null\<close> and \<open>undefined\<close>.
\<close>

fun getProp :: "jvalue \<Rightarrow> string \<Rightarrow> jsval" where
  "getProp (JObj kvs) k = map_of kvs (ustr k)"
| "getProp _ k = None"

fun optChain :: "jsval \<Rightarrow> string \<Rightarrow> jsval" where
  "optChain None k = None"
| "optChain (Some JNull) k = None"
| "optChain (Some x) k = getProp x k"

fun truthy :: "jsval \<Rightarrow> bool" where
  "truthy None = False"
| "truthy (Some JNull) = False"
| "truthy (Some (JBool b)) = b"
| "truthy (Some (JNum n)) = (\<not> isZero n)"
| "truthy (Some (JStr s)) = (s \<noteq> [])"
| "truthy (Some (JArr xs)) = True"
| "truthy (Some (JObj kvs)) = True"

fun nullish :: "jsval \<Rightarrow> bool" where
  "nullish None = True"
| "nullish (Some JNull) = True"
| "nullish (Some x) = False"

text \<open>\<open>a ?? b\<close> and \<open>a || b\<close>.\<close>

definition coalesce :: "jsval \<Rightarrow> jsval \<Rightarrow> jsval" where
  "coalesce a b = (if nullish a then b else a)"

definition orJS :: "jsval \<Rightarrow> jsval \<Rightarrow> jsval" where
  "orJS a b = (if truthy a then a else b)"

text \<open>\<open>if (v) return f(v); rest\<close>.\<close>

definition whenTruthy :: "jsval \<Rightarrow> (jvalue \<Rightarrow> 'b) \<Rightarrow> 'b \<Rightarrow> 'b" where
  "whenTruthy v f rest = (case v of Some x \<Rightarrow> if truthy v then f x else rest | None \<Rightarrow> rest)"

text \<open>
  \<open>String(v)\<close>. An array is joined with commas, \<open>null\<close> elements giving the empty
  text. An object is converted through its \<open>toString\<close> property: the inherited one
  gives \<open>[object Object]\<close>; an own property of that name, which in parsed JSON is never
  a function, is skipped, \<open>valueOf\<close> then yields no primitive, and the conversion
  throws a \<open>TypeError\<close>.
\<close>

fun stringOfValue :: "jvalue \<Rightarrow> error + jsstring"
  and joinValues :: "jvalue list \<Rightarrow> error + jsstring" where
  "stringOfValue JNull = Inr (ustr ''null'')"
| "stringOfValue (JBool b) = Inr (if b then ustr ''true'' else ustr ''false'')"
| "stringOfValue (JNum n) = Inr (numText n)"
| "stringOfValue (JStr s) = Inr s"
| "stringOfValue (JArr xs) = joinValues xs"
| "stringOfValue (JObj kvs) =
     (if map_of kvs (ustr ''toString'') = None then Inr (ustr ''[object Object]'')
      else Inl TypeError)"
| "joinValues [] = Inr []"
| "joinValues [x] = (if x = JNull then Inr [] else stringOfValue x)"
| "joinValues (x # y # ys) =
     (case (if x = JNull then Inr [] else stringOfValue x) of
        Inl e \<Rightarrow> Inl e
      | Inr s \<Rightarrow> (case joinValues (y # ys) of
                   Inl e \<Rightarrow> Inl e
                 | Inr t \<Rightarrow> Inr (s @ ustr '','' @ t)))"

definition String_js :: "jsval \<Rightarrow> error + jsstring" where
  "String_js v = (case v of None \<Rightarrow> Inr (ustr ''undefined'') | Some x \<Rightarrow> stringOfValue x)"

text \<open>
  White space as \<open>trim\<close> and the class \<open>\s\<close> read it: the ECMAScript
  white-space and line-terminator code points.
\<close>

definition isWhiteSpace :: "nat \<Rightarrow> bool" where
  "isWhiteSpace c \<longleftrightarrow>
     c \<in> {0x9, 0xA, 0xB, 0xC, 0xD, 0x20, 0xA0, 0x1680, 0x2028, 0x2029, 0x202F, 0x205F,
          0x3000, 0xFEFF} \<or> (0x2000 \<le> c \<and> c \<le> 0x200A)"

definition trim :: "jsstring \<Rightarrow> jsstring" where
  "trim s = rev (dropWhile isWhiteSpace (rev (dropWhile isWhiteSpace s)))"

text \<open>
  \<open>/completed/i.test(s)\<close>: without the \<open>u\<close> flag a pattern letter matches itself
  and its ASCII upper-case form only, and the pattern may start anywhere.
\<close>

definition lowerASCII :: "nat \<Rightarrow> nat" where
  "lowerASCII c = (if 65 \<le> c \<and> c \<le> 90 then c + 32 else c)"

fun searchLiteral :: "jsstring \<Rightarrow> jsstring \<Rightarrow> bool" where
  "searchLiteral p [] = (p = [])"
| "searchLiteral p (c # cs) = (take (length p) (c # cs) = p \<or> searchLiteral p cs)"

definition testCompleted :: "jsstring \<Rightarrow> bool" where
  "testCompleted s = searchLiteral (ustr ''completed'') (map lowerASCII s)"

section \<open>Field extraction\<close>

record 'a AgentIdentity =
  id' :: "'a option"
  name' :: "'a option"

text \<open>
  \<open>extractAgent\<close> of \<open>src/app/api/webhooks/openai/route.ts\<close>, where the event is a
  \<open>Record<string, any>\<close>: the candidates are tested for truthiness and their \<open>id\<close>
  and \<open>name\<close> are returned as found.
\<close>

definition extractAgent :: "jvalue \<Rightarrow> jvalue AgentIdentity option" where
  "extractAgent evt =
     (let fromRoot = orJS (orJS (getProp evt ''agent'') (getProp evt ''target_agent'')) (Some JNull)
      in whenTruthy fromRoot
           (\<lambda>r. Some \<lparr>id' = getProp r ''id'', name' = getProp r ''name''\<rparr>)
        (let fromStep = orJS (orJS (optChain (getProp evt ''step'') ''agent'')
                                   (optChain (optChain (getProp evt ''run'') ''last_step'') ''agent''))
                             (Some JNull)
         in whenTruthy fromStep
              (\<lambda>r. Some \<lparr>id' = getProp r ''id'', name' = getProp r ''name''\<rparr>)
           (let id = coalesce (coalesce (getProp evt ''agent_id'')
                                        (optChain (getProp evt ''step'') ''agent_id''))
                              (optChain (getProp evt ''run'') ''agent_id'');
                name = coalesce (coalesce (getProp evt ''agent_name'')
                                          (optChain (getProp evt ''step'') ''agent_name''))
                                (optChain (getProp evt ''run'') ''agent_name'')
            in if truthy id \<or> truthy name then Some \<lparr>id' = id, name' = name\<rparr> else None)))"

text \<open>
  The same function in \<open>src/unnamed/part_000\<close>, where the event is a
  \<open>Record<string, unknown>\<close>: a candidate has to pass \<open>isObj\<close>, and \<open>id\<close> and
  \<open>name\<close> go through \<open>asString\<close>.
\<close>

fun isObj :: "jsval \<Rightarrow> bool" where
  "isObj (Some (JObj kvs)) = True"
| "isObj (Some (JArr xs)) = True"
| "isObj _ = False"

fun asString :: "jsval \<Rightarrow> jsstring option" where
  "asString (Some (JStr s)) = Some s"
| "asString _ = None"

definition objOrNull :: "jsval \<Rightarrow> jsval" where
  "objOrNull v = (if isObj v then v else Some JNull)"

definition extractAgent_part000 :: "jvalue \<Rightarrow> jsstring AgentIdentity option" where
  "extractAgent_part000 evt =
     (let rootAgent = objOrNull (getProp evt ''agent'');
          targetAgent = objOrNull (getProp evt ''target_agent'');
          fromRoot = orJS rootAgent targetAgent
      in whenTruthy fromRoot
           (\<lambda>r. Some \<lparr>id' = asString (getProp r ''id''), name' = asString (getProp r ''name'')\<rparr>)
        (let step = objOrNull (getProp evt ''step'');
             run = objOrNull (getProp evt ''run'');
             lastStep = objOrNull (optChain run ''last_step'');
             stepAgent = objOrNull (optChain step ''agent'');
             runLastStepAgent = objOrNull (optChain lastStep ''agent'');
             fromStep = orJS (orJS stepAgent runLastStepAgent) (Some JNull)
         in whenTruthy fromStep
              (\<lambda>r. Some \<lparr>id' = asString (getProp r ''id''),
                           name' = asString (getProp r ''name'')\<rparr>)
           (let id = coalesce (coalesce (getProp evt ''agent_id'')
                                        (if isObj step then optChain step ''agent_id'' else None))
                              (if isObj run then optChain run ''agent_id'' else None);
                name = coalesce (coalesce (getProp evt ''agent_name'')
                                          (if isObj step then optChain step ''agent_name'' else None))
                                (if isObj run then optChain run ''agent_name'' else None)
            in if truthy id \<or> truthy name
               then Some \<lparr>id' = asString id, name' = asString name\<rparr> else None)))"

text \<open>\<open>extractAgentResult\<close> of \<open>route.ts\<close>: a chain of \<open>??\<close> that ends in \<open>null\<close>.\<close>

definition extractAgentResult :: "jvalue \<Rightarrow> jsval" where
  "extractAgentResult evt =
     coalesce (coalesce (coalesce (coalesce (coalesce (coalesce
       (getProp evt ''result'')
       (getProp evt ''output''))
       (getProp evt ''data''))
       (optChain (getProp evt ''step'') ''result''))
       (optChain (getProp evt ''step'') ''output''))
       (optChain (getProp evt ''run'') ''result''))
       (Some JNull)"

section \<open>The webhook handler\<close>

text \<open>\<open>process.env\<close>: a variable that is not set is \<open>None\<close>.\<close>

record env =
  OPENAI_WEBHOOK_SECRET :: "jsstring option"
  TARGET_AGENT_ID :: "jsstring option"
  TARGET_AGENT_NAME :: "jsstring option"
  GOOGLE_SHEETS_ID :: "jsstring option"
  GOOGLE_SHEETS_TAB :: "jsstring option"
  GOOGLE_SA_CLIENT_EMAIL :: "jsstring option"
  GOOGLE_SA_PRIVATE_KEY :: "jsstring option"

text \<open>
  The request: \<open>rawBody\<close> is what \<open>request.text()\<close> resolves to, \<open>headersGet\<close> is
  \<open>request.headers.get\<close>.
\<close>

record request =
  rawBody :: jsstring
  headersGet :: "string \<Rightarrow> jsstring option"

text \<open>The argument of \<open>appendToSheet\<close>. In \<open>route.ts\<close> the agent's id and name are
  whatever \<open>extractAgent\<close> found, so they are values, not strings.\<close>

record SheetRow =
  timestamp :: jsstring
  runId :: jsstring
  agentId :: jvalue
  agentName :: jvalue
  userId :: jsstring
  dataJson :: jsstring

text \<open>The argument of \<open>sheets.spreadsheets.values.append\<close>, with the credentials the
  client was built from.\<close>

record appendCall =
  spreadsheetId :: jsstring
  sheetRange :: jsstring
  email :: jsstring
  key :: jsstring
  cells :: "jvalue list"

text \<open>
  What the handler takes from outside the repository: the HMAC primitive,
  \<open>JSON.parse\<close> (which may throw), \<open>JSON.stringify\<close>, the clock behind
  \<open>new Date().toISOString()\<close>, and the spreadsheet service, which accepts a call or
  fails it.
\<close>

record world =
  hmacSha256 :: "buffer \<Rightarrow> buffer \<Rightarrow> error + buffer"
  JSON_parse :: "jsstring \<Rightarrow> error + jvalue"
  JSON_stringify :: "jvalue \<Rightarrow> jsstring"
  now :: jsstring
  sheetsAppend :: "appendCall \<Rightarrow> error + unit"

text \<open>
  The state the handler acts on: \<open>calls\<close> logs every invocation of
  \<open>appendToSheet\<close>, \<open>rows\<close> holds the rows of the sheet. The handler never reads it.
\<close>

record store =
  calls :: "SheetRow list"
  rows :: "jvalue list list"

record response =
  status :: nat
  payload :: jvalue

datatype outcome = Returned response | Thrown error

definition json :: "(string \<times> jvalue) list \<Rightarrow> nat \<Rightarrow> outcome" where
  "json kvs code = Returned \<lparr>status = code, payload = JObj (map (\<lambda>(k, v). (ustr k, v)) kvs)\<rparr>"

text \<open>\<open>privateKey.replace(/\\n/g, "\n")\<close>: a backslash followed by \<open>n\<close> becomes a line feed.\<close>

fun unescapeNewlines :: "jsstring \<Rightarrow> jsstring" where
  "unescapeNewlines (a # b # cs) =
     (if a = 92 \<and> b = 110 then 10 # unescapeNewlines cs else a # unescapeNewlines (b # cs))"
| "unescapeNewlines cs = cs"

definition present :: "jsstring option \<Rightarrow> bool" where
  "present v = (case v of None \<Rightarrow> False | Some s \<Rightarrow> s \<noteq> [])"

definition appendToSheet :: "world \<Rightarrow> env \<Rightarrow> SheetRow \<Rightarrow> store \<Rightarrow> (error + unit) \<times> store" where
  "appendToSheet w e params s =
     (let s1 = s\<lparr>calls := calls s @ [params]\<rparr> in
      case (GOOGLE_SHEETS_ID e, GOOGLE_SA_CLIENT_EMAIL e, GOOGLE_SA_PRIVATE_KEY e) of
        (Some sid, Some mail, Some pk) \<Rightarrow>
          if sid = [] \<or> mail = [] \<or> pk = []
          then (Inl (Error (ustr ''Missing Google Sheets env vars'')), s1)
          else
            (let sheetTab = (if present (GOOGLE_SHEETS_TAB e) then the (GOOGLE_SHEETS_TAB e)
                             else ustr ''Sheet1'');
                 vals = [JStr (timestamp params), JStr (runId params), agentId params,
                           agentName params, JStr (userId params), JStr (dataJson params)]
             in case sheetsAppend w \<lparr>spreadsheetId = sid, sheetRange = sheetTab @ ustr ''!A:Z'',
                                      email = mail, key = unescapeNewlines pk, cells = vals\<rparr> of
                  Inl err \<Rightarrow> (Inl err, s1)
                | Inr u \<Rightarrow> (Inr (), s1\<lparr>rows := rows s1 @ [vals]\<rparr>))
      | _ \<Rightarrow> (Inl (Error (ustr ''Missing Google Sheets env vars'')), s1))"

text \<open>Lines 77 to 98 of \<open>POST\<close>: the row is built and appended.\<close>

definition POST_store :: "world \<Rightarrow> env \<Rightarrow> jvalue \<Rightarrow> jvalue \<Rightarrow> jvalue \<Rightarrow> store \<Rightarrow> outcome \<times> store" where
  "POST_store w e evt aid aname s =
     (case String_js (coalesce (coalesce (getProp evt ''run_id'') (optChain (getProp evt ''run'') ''id''))
                               (Some (JStr []))) of
        Inl err \<Rightarrow> (Thrown err, s)
      | Inr rid \<Rightarrow>
     (case String_js (coalesce (coalesce (coalesce (getProp evt ''user_id'')
                                  (optChain (getProp evt ''scope'') ''user_id''))
                                  (optChain (getProp evt ''run'') ''user_id''))
                               (Some (JStr []))) of
        Inl err \<Rightarrow> (Thrown err, s)
      | Inr uid \<Rightarrow>
          (let payloadData = extractAgentResult evt in
           case appendToSheet w e
                  \<lparr>timestamp = now w, runId = rid, agentId = aid, agentName = aname,
                   userId = uid,
                   dataJson = (case payloadData of
                                 Some v \<Rightarrow> if truthy payloadData then JSON_stringify w v else []
                               | None \<Rightarrow> [])\<rparr> s of
             (Inl err, s') \<Rightarrow> (json [(''error'', JStr (ustr ''Sheets append failed''))] 500, s')
           | (Inr u, s') \<Rightarrow> (json [(''ok'', JBool True)] 200, s'))))"

text \<open>Lines 51 to 75 of \<open>POST\<close>: the event-type gate and the identity filter.\<close>

definition POST_event :: "world \<Rightarrow> env \<Rightarrow> jvalue \<Rightarrow> store \<Rightarrow> outcome \<times> store" where
  "POST_event w e evt s =
     (case String_js (coalesce (coalesce (getProp evt ''type'') (getProp evt ''event''))
                               (Some (JStr []))) of
        Inl err \<Rightarrow> (Thrown err, s)
      | Inr eventType \<Rightarrow>
          if \<not> testCompleted eventType
          then (json [(''ok'', JBool True), (''ignored'', JBool True)] 200, s)
          else
            (let targetAgentId = (case TARGET_AGENT_ID e of None \<Rightarrow> [] | Some t \<Rightarrow> trim t);
                 targetAgentName = (case TARGET_AGENT_NAME e of None \<Rightarrow> [] | Some t \<Rightarrow> trim t);
                 agent = extractAgent evt;
                 aid = (case coalesce (case agent of None \<Rightarrow> None | Some a \<Rightarrow> id' a)
                                          (Some (JStr [])) of
                              Some v \<Rightarrow> v | None \<Rightarrow> JStr []);
                 aname = (case coalesce (case agent of None \<Rightarrow> None | Some a \<Rightarrow> name' a)
                                            (Some (JStr [])) of
                                Some v \<Rightarrow> v | None \<Rightarrow> JStr [])
             in if targetAgentId \<noteq> [] then
                  (if \<not> truthy (Some aid) \<or> aid \<noteq> JStr targetAgentId
                   then (json [(''ok'', JBool True), (''ignored'', JBool True),
                               (''reason'', JStr (ustr ''agent_id mismatch''))] 200, s)
                   else POST_store w e evt aid aname s)
                else if targetAgentName \<noteq> [] then
                  (if \<not> truthy (Some aname) \<or> aname \<noteq> JStr targetAgentName
                   then (json [(''ok'', JBool True), (''ignored'', JBool True),
                               (''reason'', JStr (ustr ''agent_name mismatch''))] 200, s)
                   else POST_store w e evt aid aname s)
                else POST_store w e evt aid aname s))"

text \<open>\<open>POST\<close> of \<open>route.ts\<close>, lines 19 to 49, continued by the two parts above.\<close>

definition providedSig :: "request \<Rightarrow> jsstring" where
  "providedSig req =
     (if present (headersGet req ''OpenAI-Signature'') then the (headersGet req ''OpenAI-Signature'')
      else if present (headersGet req ''x-openai-signature'')
      then the (headersGet req ''x-openai-signature'')
      else [])"

definition POST :: "world \<Rightarrow> env \<Rightarrow> request \<Rightarrow> store \<Rightarrow> outcome \<times> store" where
  "POST w e req s =
     (if \<not> present (OPENAI_WEBHOOK_SECRET e)
      then (json [(''error'', JStr (ustr ''Missing OPENAI_WEBHOOK_SECRET''))] 500, s)
      else if \<not> verifyHmacSha256 (hmacSha256 w) (rawBody req) (the (OPENAI_WEBHOOK_SECRET e))
                  (providedSig req)
      then (json [(''error'', JStr (ustr ''Invalid signature''))] 401, s)
      else
        (case (if rawBody req \<noteq> [] then JSON_parse w (rawBody req) else Inr JNull) of
           Inl err \<Rightarrow> (json [(''error'', JStr (ustr ''Invalid JSON''))] 400, s)
         | Inr evt \<Rightarrow>
             if \<not> truthy (Some evt)
             then (json [(''error'', JStr (ustr ''Empty event''))] 400, s)
             else POST_event w e evt s))"

section \<open>The chat panel's client tools\<close>

text \<open>
  The part of \<open>ChatKitPanel\<close> that the \<open>record_fact\<close> tool touches: the
  \<open>processedFacts\<close> set and what \<open>handleResetChat\<close> resets with it. The script
  status \<open>"error"\<close> is the constructor \<open>failed\<close>.
\<close>

datatype scriptState = pending | ready | failed

record ErrorState =
  script :: "jsstring option"
  session :: "jsstring option"
  integration :: "jsstring option"
  retryable :: bool

definition createInitialErrors :: ErrorState where
  "createInitialErrors = \<lparr>script = None, session = None, integration = None, retryable = False\<rparr>"

record panel =
  processedFacts :: "jsstring set"
  errors :: ErrorState
  isInitializingSession :: bool
  scriptStatus :: scriptState
  widgetInstanceKey :: nat

record FactAction =
  actionType :: jsstring
  factId :: jsstring
  factText :: jsstring

record invocation =
  name :: jsstring
  params :: "(jsstring \<times> jvalue) list"

text \<open>The callbacks of the panel's owner that a tool invocation calls.\<close>

datatype callback = OnThemeRequest jsstring | OnWidgetAction FactAction

text \<open>\<open>text.replace(/\s+/g, " ")\<close>: every maximal run of white space becomes one space.\<close>

function collapseSpaces :: "jsstring \<Rightarrow> jsstring" where
  "collapseSpaces [] = []"
| "collapseSpaces (c # cs) =
     (if isWhiteSpace c then 32 # collapseSpaces (dropWhile isWhiteSpace cs)
      else c # collapseSpaces cs)"
  by pat_completeness auto
termination
  by (relation "measure length") (auto simp: length_dropWhile_le less_Suc_eq_le)

text \<open>
  \<open>onClientTool\<close>: the result is \<open>{success: b}\<close>, or the exception \<open>String\<close> threw;
  with it come the panel afterwards and the callbacks invoked.
\<close>

definition onClientTool :: "panel \<Rightarrow> invocation \<Rightarrow> (error + bool) \<times> panel \<times> callback list" where
  "onClientTool p call =
     (if name call = ustr ''switch_theme'' then
        (let requested = map_of (params call) (ustr ''theme'') in
         if requested = Some (JStr (ustr ''light'')) then
           (Inr True, p, [OnThemeRequest (ustr ''light'')])
         else if requested = Some (JStr (ustr ''dark'')) then
           (Inr True, p, [OnThemeRequest (ustr ''dark'')])
         else (Inr False, p, []))
      else if name call = ustr ''record_fact'' then
        (case String_js (coalesce (map_of (params call) (ustr ''fact_id'')) (Some (JStr []))) of
           Inl err \<Rightarrow> (Inl err, p, [])
         | Inr fid \<Rightarrow>
        (case String_js (coalesce (map_of (params call) (ustr ''fact_text'')) (Some (JStr []))) of
           Inl err \<Rightarrow> (Inl err, p, [])
         | Inr ftext \<Rightarrow>
             if fid = [] \<or> fid \<in> processedFacts p then (Inr True, p, [])
             else (Inr True, p\<lparr>processedFacts := insert fid (processedFacts p)\<rparr>,
                   [OnWidgetAction \<lparr>actionType = ustr ''save'', factId = fid,
                                    factText = trim (collapseSpaces ftext)\<rparr>])))
      else (Inr False, p, []))"

definition onThreadChange :: "panel \<Rightarrow> panel" where
  "onThreadChange p = p\<lparr>processedFacts := {}\<rparr>"

text \<open>\<open>handleResetChat\<close>; \<open>registered\<close> tells whether the browser has the
  \<open>openai-chatkit\<close> element defined.\<close>

definition handleResetChat :: "bool \<Rightarrow> bool \<Rightarrow> panel \<Rightarrow> panel" where
  "handleResetChat isBrowser registered p =
     p\<lparr>processedFacts := {},
       scriptStatus := (if isBrowser then (if registered then ready else pending)
                        else scriptStatus p),
       isInitializingSession := True,
       errors := createInitialErrors,
       widgetInstanceKey := widgetInstanceKey p + 1\<rparr>"

text \<open>A widget's life as a sequence of events, and the callbacks it invokes in order.\<close>

datatype event = ClientTool invocation | ThreadChange | ResetChat bool bool

fun step :: "panel \<Rightarrow> event \<Rightarrow> panel \<times> callback list" where
  "step p (ClientTool call) = snd (onClientTool p call)"
| "step p ThreadChange = (onThreadChange p, [])"
| "step p (ResetChat isBrowser registered) = (handleResetChat isBrowser registered p, [])"

fun run :: "panel \<Rightarrow> event list \<Rightarrow> panel \<times> callback list" where
  "run p [] = (p, [])"
| "run p (ev # evs) =
     (case step p ev of (p1, cs1) \<Rightarrow> (case run p1 evs of (p2, cs2) \<Rightarrow> (p2, cs1 @ cs2)))"

fun savedFacts :: "callback list \<Rightarrow> jsstring list" where
  "savedFacts [] = []"
| "savedFacts (OnWidgetAction a # cs) = factId a # savedFacts cs"
| "savedFacts (OnThemeRequest t # cs) = savedFacts cs"

fun clears :: "event \<Rightarrow> bool" where
  "clears (ClientTool call) = False"
| "clears ThreadChange = True"
| "clears (ResetChat isBrowser registered) = True"

section \<open>Definitions used to state the properties\<close>

text \<open>A single-bit mutation of a string: bit \<open>k\<close> of the code unit at position \<open>i\<close> is flipped.\<close>

definition flipBitAt :: "jsstring \<Rightarrow> nat \<Rightarrow> nat \<Rightarrow> jsstring" where
  "flipBitAt s i k = s[i := flip_bit k (s ! i)]"

text \<open>
  A stand-in for the HMAC primitive, to run the code on concrete requests: the digest
  is the key followed by the message, so two messages never share one.
\<close>

definition stubHmac :: "buffer \<Rightarrow> buffer \<Rightarrow> error + buffer" where
  "stubHmac k m = Inr (k @ m)"


text \<open>
  The strings the handler can receive as a body: \<open>request.text()\<close> decodes the request
  bytes as UTF-8, which yields code units below \<open>0x10000\<close> in which every surrogate is
  half of a pair, a high one followed by a low one.
\<close>

fun wellFormed :: "jsstring \<Rightarrow> bool" where
  "wellFormed [] = True"
| "wellFormed [c] = (c < 0x10000 \<and> \<not> (0xD800 \<le> c \<and> c < 0xE000))"
| "wellFormed (c # d # ds) =
     (c < 0x10000 \<and>
      (if 0xD800 \<le> c \<and> c < 0xDC00 then 0xDC00 \<le> d \<and> d < 0xE000 \<and> wellFormed ds
       else \<not> (0xDC00 \<le> c \<and> c < 0xE000) \<and> wellFormed (d # ds)))"

text \<open>
  A decoder for the bytes that \<open>utf8\<close> produces, by the length class of the leading
  byte. It is used to show that \<open>utf8\<close> loses nothing on well-formed strings.
\<close>

fun decodeUtf8 :: "buffer \<Rightarrow> jsstring" where
  "decodeUtf8 [] = []"
| "decodeUtf8 (a # bs) =
     (if a < 0x80 then a # decodeUtf8 bs
      else if a < 0xE0 then
        (case bs of
           b # r \<Rightarrow> ((a - 0xC0) * 64 + (b - 0x80)) # decodeUtf8 r
         | _ \<Rightarrow> [])
      else if a < 0xF0 then
        (case bs of
           b # c # r \<Rightarrow> ((a - 0xE0) * 4096 + (b - 0x80) * 64 + (c - 0x80)) # decodeUtf8 r
         | _ \<Rightarrow> [])
      else
        (case bs of
           b # c # d # r \<Rightarrow>
             (let cp = (a - 0xF0) * 262144 + (b - 0x80) * 4096 + (c - 0x80) * 64 + (d - 0x80)
              in (0xD800 + (cp - 0x10000) div 1024) # (0xDC00 + (cp - 0x10000) mod 1024) #
                 decodeUtf8 r)
         | _ \<Rightarrow> []))"

text \<open>
  A collision of the HMAC primitive under one key: two different messages whose digests
  have the same hexadecimal text.
\<close>

definition collides ::
  "(buffer \<Rightarrow> buffer \<Rightarrow> error + buffer) \<Rightarrow> buffer \<Rightarrow> buffer \<Rightarrow> buffer \<Rightarrow> bool" where
  "collides hmac k m m' \<longleftrightarrow>
     m \<noteq> m' \<and> (\<exists>d d'. hmac k m = Inr d \<and> hmac k m' = Inr d' \<and> hex d = hex d')"
text \<open>The places \<open>extractAgent\<close> probes, in its order.\<close>

definition rootAgentOf :: "jvalue \<Rightarrow> jsval" where
  "rootAgentOf evt = getProp evt ''agent''"

definition targetAgentOf :: "jvalue \<Rightarrow> jsval" where
  "targetAgentOf evt = getProp evt ''target_agent''"

definition stepAgentOf :: "jvalue \<Rightarrow> jsval" where
  "stepAgentOf evt = optChain (getProp evt ''step'') ''agent''"

definition lastStepAgentOf :: "jvalue \<Rightarrow> jsval" where
  "lastStepAgentOf evt = optChain (optChain (getProp evt ''run'') ''last_step'') ''agent''"

text \<open>The first of root, \<open>step\<close> and \<open>run\<close> whose field \<open>k\<close> is neither \<open>null\<close> nor
  \<open>undefined\<close>; the field of \<open>run\<close> when there is none.\<close>

definition flatField :: "jvalue \<Rightarrow> string \<Rightarrow> jsval" where
  "flatField evt k =
     (if \<not> nullish (getProp evt k) then getProp evt k
      else if \<not> nullish (optChain (getProp evt ''step'') k) then optChain (getProp evt ''step'') k
      else optChain (getProp evt ''run'') k)"

definition identityOf :: "jsval \<Rightarrow> jvalue AgentIdentity option" where
  "identityOf c =
     (case c of None \<Rightarrow> None
      | Some r \<Rightarrow> Some \<lparr>id' = getProp r ''id'', name' = getProp r ''name''\<rparr>)"

definition identityOf_part000 :: "jsval \<Rightarrow> jsstring AgentIdentity option" where
  "identityOf_part000 c =
     (case c of None \<Rightarrow> None
      | Some r \<Rightarrow> Some \<lparr>id' = asString (getProp r ''id''), name' = asString (getProp r ''name'')\<rparr>)"

text \<open>
  The resolution as claim C3 words it: seven locations in order; an object location
  matches when it exists and has an \<open>id\<close> or a \<open>name\<close>, a flat location when it has an
  \<open>agent_id\<close> or an \<open>agent_name\<close>; the first match gives both fields.
\<close>

definition claimedMatch :: "jsval \<Rightarrow> string \<Rightarrow> string \<Rightarrow> jvalue AgentIdentity option" where
  "claimedMatch c kid kname =
     (case c of
        Some (JObj kvs) \<Rightarrow>
          if \<not> nullish (map_of kvs (ustr kid)) \<or> \<not> nullish (map_of kvs (ustr kname))
          then Some \<lparr>id' = map_of kvs (ustr kid), name' = map_of kvs (ustr kname)\<rparr>
          else None
      | _ \<Rightarrow> None)"

fun firstMatch :: "'a option list \<Rightarrow> 'a option" where
  "firstMatch [] = None"
| "firstMatch (None # ms) = firstMatch ms"
| "firstMatch (Some m # ms) = Some m"

definition extractAgent_claimed :: "jvalue \<Rightarrow> jvalue AgentIdentity option" where
  "extractAgent_claimed evt =
     firstMatch
       [claimedMatch (rootAgentOf evt) ''id'' ''name'',
        claimedMatch (targetAgentOf evt) ''id'' ''name'',
        claimedMatch (stepAgentOf evt) ''id'' ''name'',
        claimedMatch (lastStepAgentOf evt) ''id'' ''name'',
        claimedMatch (Some evt) ''agent_id'' ''agent_name'',
        claimedMatch (getProp evt ''step'') ''agent_id'' ''agent_name'',
        claimedMatch (getProp evt ''run'') ''agent_id'' ''agent_name'']"

text \<open>Names for what \<open>POST\<close> computes on its way, to state its gates.\<close>

definition secretConfigured :: "env \<Rightarrow> bool" where
  "secretConfigured e = present (OPENAI_WEBHOOK_SECRET e)"

definition signatureValid :: "world \<Rightarrow> env \<Rightarrow> request \<Rightarrow> bool" where
  "signatureValid w e req =
     verifyHmacSha256 (hmacSha256 w) (rawBody req) (the (OPENAI_WEBHOOK_SECRET e)) (providedSig req)"

definition eventTypeOf :: "jvalue \<Rightarrow> error + jsstring" where
  "eventTypeOf evt =
     String_js (coalesce (coalesce (getProp evt ''type'') (getProp evt ''event'')) (Some (JStr [])))"

definition targetAgentId :: "env \<Rightarrow> jsstring" where
  "targetAgentId e = (case TARGET_AGENT_ID e of None \<Rightarrow> [] | Some t \<Rightarrow> trim t)"

definition targetAgentName :: "env \<Rightarrow> jsstring" where
  "targetAgentName e = (case TARGET_AGENT_NAME e of None \<Rightarrow> [] | Some t \<Rightarrow> trim t)"

definition resolvedAgentId :: "jvalue \<Rightarrow> jvalue" where
  "resolvedAgentId evt =
     (case coalesce (case extractAgent evt of None \<Rightarrow> None | Some a \<Rightarrow> id' a) (Some (JStr [])) of
        Some v \<Rightarrow> v | None \<Rightarrow> JStr [])"

definition resolvedAgentName :: "jvalue \<Rightarrow> jvalue" where
  "resolvedAgentName evt =
     (case coalesce (case extractAgent evt of None \<Rightarrow> None | Some a \<Rightarrow> name' a) (Some (JStr [])) of
        Some v \<Rightarrow> v | None \<Rightarrow> JStr [])"

definition runIdOf :: "jvalue \<Rightarrow> error + jsstring" where
  "runIdOf evt =
     String_js (coalesce (coalesce (getProp evt ''run_id'') (optChain (getProp evt ''run'') ''id''))
                         (Some (JStr [])))"

definition userIdOf :: "jvalue \<Rightarrow> error + jsstring" where
  "userIdOf evt =
     String_js (coalesce (coalesce (coalesce (getProp evt ''user_id'')
                            (optChain (getProp evt ''scope'') ''user_id''))
                            (optChain (getProp evt ''run'') ''user_id''))
                         (Some (JStr [])))"

text \<open>A completion event: the body parses to a truthy value whose event type, as a
  string, matches \<open>/completed/i\<close>.\<close>

definition completionEvent :: "world \<Rightarrow> request \<Rightarrow> jvalue \<Rightarrow> bool" where
  "completionEvent w req evt \<longleftrightarrow>
     rawBody req \<noteq> [] \<and> JSON_parse w (rawBody req) = Inr evt \<and> truthy (Some evt) \<and>
     (case eventTypeOf evt of Inl err \<Rightarrow> False | Inr t \<Rightarrow> testCompleted t)"

text \<open>The identity filter lets the event through.\<close>

definition passesFilter :: "env \<Rightarrow> jvalue \<Rightarrow> bool" where
  "passesFilter e evt =
     (if targetAgentId e \<noteq> [] then
        truthy (Some (resolvedAgentId evt)) \<and> resolvedAgentId evt = JStr (targetAgentId e)
      else if targetAgentName e \<noteq> [] then
        truthy (Some (resolvedAgentName evt)) \<and> resolvedAgentName evt = JStr (targetAgentName e)
      else True)"

text \<open>The responses of the handler.\<close>

definition missingSecret :: outcome where
  "missingSecret = json [(''error'', JStr (ustr ''Missing OPENAI_WEBHOOK_SECRET''))] 500"

definition invalidSignature :: outcome where
  "invalidSignature = json [(''error'', JStr (ustr ''Invalid signature''))] 401"

definition invalidJson :: outcome where
  "invalidJson = json [(''error'', JStr (ustr ''Invalid JSON''))] 400"

definition emptyEvent :: outcome where
  "emptyEvent = json [(''error'', JStr (ustr ''Empty event''))] 400"

definition ignored :: outcome where
  "ignored = json [(''ok'', JBool True), (''ignored'', JBool True)] 200"

definition ignoredBecause :: "string \<Rightarrow> outcome" where
  "ignoredBecause reason =
     json [(''ok'', JBool True), (''ignored'', JBool True), (''reason'', JStr (ustr reason))] 200"

definition appendFailed :: outcome where
  "appendFailed = json [(''error'', JStr (ustr ''Sheets append failed''))] 500"

definition handled :: outcome where
  "handled = json [(''ok'', JBool True)] 200"

text \<open>The row \<open>POST\<close> hands to \<open>appendToSheet\<close> for an event.\<close>

definition rowOf :: "world \<Rightarrow> jvalue \<Rightarrow> jsstring \<Rightarrow> jsstring \<Rightarrow> SheetRow" where
  "rowOf w evt rid uid =
     \<lparr>timestamp = now w, runId = rid, agentId = resolvedAgentId evt,
      agentName = resolvedAgentName evt, userId = uid,
      dataJson = (case extractAgentResult evt of
                    Some v \<Rightarrow> if truthy (extractAgentResult evt) then JSON_stringify w v else []
                  | None \<Rightarrow> [])\<rparr>"

text \<open>The cells \<open>appendToSheet\<close> sends for a row.\<close>

definition cellsOf :: "SheetRow \<Rightarrow> jvalue list" where
  "cellsOf r = [JStr (timestamp r), JStr (runId r), agentId r, agentName r, JStr (userId r),
                JStr (dataJson r)]"

text \<open>
  A world to run the handler in: the stand-in HMAC, \<open>JSON.parse\<close> and
  \<open>JSON.stringify\<close> given by a table of texts and their values, a fixed clock, and a
  spreadsheet service that accepts every call. A request signed for that world.
\<close>

definition textOf :: "(jsstring \<times> jvalue) list \<Rightarrow> jvalue \<Rightarrow> jsstring" where
  "textOf table v = (case find (\<lambda>(t, x). x = v) table of Some (t, x) \<Rightarrow> t | None \<Rightarrow> [])"

definition demoWorld :: "(jsstring \<times> jvalue) list \<Rightarrow> world" where
  "demoWorld table =
     \<lparr>hmacSha256 = stubHmac,
      JSON_parse = (\<lambda>s. case map_of table s of Some v \<Rightarrow> Inr v | None \<Rightarrow> Inl SyntaxError),
      JSON_stringify = textOf table,
      now = ustr ''2026-01-01T00:00:00.000Z'',
      sheetsAppend = (\<lambda>c. Inr ())\<rparr>"

definition signedRequest :: "jsstring \<Rightarrow> jsstring \<Rightarrow> request" where
  "signedRequest secret body =
     \<lparr>rawBody = body,
      headersGet = (\<lambda>h. if h = ''OpenAI-Signature''
                         then Some (ustr ''sha256='' @ hex (utf8 secret @ utf8 body)) else None)\<rparr>"

definition demoEnv :: "jsstring option \<Rightarrow> jsstring option \<Rightarrow> env" where
  "demoEnv tid tname =
     \<lparr>OPENAI_WEBHOOK_SECRET = Some (ustr ''whsec''),
      TARGET_AGENT_ID = tid, TARGET_AGENT_NAME = tname,
      GOOGLE_SHEETS_ID = Some (ustr ''sheet-1''), GOOGLE_SHEETS_TAB = None,
      GOOGLE_SA_CLIENT_EMAIL = Some (ustr ''sa@example.com''),
      GOOGLE_SA_PRIVATE_KEY = Some (ustr ''key'')\<rparr>"

definition emptyStore :: store where
  "emptyStore = \<lparr>calls = [], rows = []\<rparr>"

text \<open>
  Request bodies and the events they parse to: the completion event of the spec's
  example, a start event, a completion event whose result is \<open>false\<close>, and one whose
  run id is an object with a property named \<open>toString\<close>.
\<close>

definition completedBody :: jsstring where
  \<open>completedBody =
     ustr ''{"type":"run.completed","agent":{"id":"a1","name":"Agent1"},"result":{"x":1}}''\<close>

definition completedEvent :: jvalue where
  "completedEvent =
     JObj [(ustr ''type'', JStr (ustr ''run.completed'')),
           (ustr ''agent'', JObj [(ustr ''id'', JStr (ustr ''a1'')),
                                  (ustr ''name'', JStr (ustr ''Agent1''))]),
           (ustr ''result'', JObj [(ustr ''x'', JNum (Number False (ustr ''1'')))])]"

definition startedBody :: jsstring where
  \<open>startedBody = ustr ''{"type":"run.started"}''\<close>

definition startedEvent :: jvalue where
  "startedEvent = JObj [(ustr ''type'', JStr (ustr ''run.started''))]"

definition falseResultBody :: jsstring where
  \<open>falseResultBody = ustr ''{"type":"run.completed","result":false}''\<close>

definition falseResultEvent :: jvalue where
  "falseResultEvent =
     JObj [(ustr ''type'', JStr (ustr ''run.completed'')), (ustr ''result'', JBool False)]"

definition objectRunIdBody :: jsstring where
  \<open>objectRunIdBody = ustr ''{"type":"run.completed","run_id":{"toString":1}}''\<close>

definition objectRunIdEvent :: jvalue where
  "objectRunIdEvent =
     JObj [(ustr ''type'', JStr (ustr ''run.completed'')),
           (ustr ''run_id'', JObj [(ustr ''toString'', JNum (Number False (ustr ''1'')))])]"

definition demoTable :: "(jsstring \<times> jvalue) list" where
  \<open>demoTable =
     [(completedBody, completedEvent),
      (startedBody, startedEvent),
      (falseResultBody, falseResultEvent),
      (objectRunIdBody, objectRunIdEvent),
      (ustr ''{"x":1}'', JObj [(ustr ''x'', JNum (Number False (ustr ''1'')))]),
      (ustr ''false'', JBool False),
      (ustr ''null'', JNull)]\<close>

text \<open>Names for what \<open>onClientTool\<close> computes for \<open>record_fact\<close>, to state its
  properties.\<close>

definition factIdOf :: "invocation \<Rightarrow> error + jsstring" where
  "factIdOf call = String_js (coalesce (map_of (params call) (ustr ''fact_id'')) (Some (JStr [])))"

definition factTextOf :: "invocation \<Rightarrow> error + jsstring" where
  "factTextOf call =
     String_js (coalesce (map_of (params call) (ustr ''fact_text'')) (Some (JStr [])))"

definition saveAction :: "jsstring \<Rightarrow> jsstring \<Rightarrow> callback" where
  "saveAction fid ftext =
     OnWidgetAction \<lparr>actionType = ustr ''save'', factId = fid,
                     factText = trim (collapseSpaces ftext)\<rparr>"

text \<open>
  A text is tidy when its only white space is the space character, no two spaces are
  adjacent, and it neither starts nor ends with one.
\<close>

fun singleSpaced :: "jsstring \<Rightarrow> bool" where
  "singleSpaced (a # b # s) = (\<not> (isWhiteSpace a \<and> isWhiteSpace b) \<and> singleSpaced (b # s))"
| "singleSpaced s = True"

definition tidy :: "jsstring \<Rightarrow> bool" where
  "tidy s \<longleftrightarrow>
     list_all (\<lambda>c. isWhiteSpace c \<longrightarrow> c = 32) s \<and> singleSpaced s \<and>
     (s = [] \<or> (\<not> isWhiteSpace (hd s) \<and> \<not> isWhiteSpace (last s)))"

definition initialPanel :: panel where
  "initialPanel =
     \<lparr>processedFacts = {}, errors = createInitialErrors, isInitializingSession = True,
      scriptStatus = pending, widgetInstanceKey = 0\<rparr>"

definition recordFact :: "jvalue \<Rightarrow> jvalue \<Rightarrow> invocation" where
  "recordFact fid ftext =
     \<lparr>name = ustr ''record_fact'',
      params = [(ustr ''fact_id'', fid), (ustr ''fact_text'', ftext)]\<rparr>"

section \<open>Signature verification: properties\<close>

lemma utf8_ascii: "\<forall>c\<in>set h. c < 128 \<Longrightarrow> utf8 h = h"
  by (induction h rule: utf8.induct) auto

lemma utf8_eq_ascii: "\<forall>c\<in>set h. c < 128 \<Longrightarrow> utf8 s = h \<Longrightarrow> s = h"
proof (induction s arbitrary: h rule: utf8.induct)
  case 1
  then show ?case by simp
next
  case (2 c)
  then show ?case by (auto split: if_splits)
next
  case (3 c d ds)
  show ?case
  proof (cases "c < 128")
    case True
    with 3 show ?thesis by (cases h) auto
  next
    case False
    with "3.prems" show ?thesis
      by (auto simp: Let_def split: if_splits)
  qed
qed

lemma hexDigit_mod: "hexDigit (n mod 16) < 128 \<and> hexDigit (n mod 16) \<noteq> 115"
proof -
  have "n mod 16 < 16" by simp
  then show ?thesis unfolding hexDigit_def by presburger
qed

lemma hex_chars: "c \<in> set (hex d) \<Longrightarrow> c < 128 \<and> c \<noteq> 115"
  unfolding hex_def using hexDigit_mod by (induction d) auto

lemma hex_ascii: "\<forall>c\<in>set (hex d). c < 128"
  using hex_chars by blast

lemma hex_no_prefix: "take 7 (hex d) \<noteq> ustr ''sha256=''"
proof
  assume "take 7 (hex d) = ustr ''sha256=''"
  then have "115 \<in> set (take 7 (hex d))" by (simp add: ustr_def)
  then have "115 \<in> set (hex d)" by (rule in_set_takeD)
  with hex_chars show False by blast
qed

lemma stripPrefix_hex: "stripPrefix (hex d) = hex d"
  using hex_no_prefix by (simp add: stripPrefix_def)

lemma stripPrefix_prefixed: "stripPrefix (ustr ''sha256='' @ s) = s"
  by (simp add: stripPrefix_def ustr_def)

lemma verify_iff:
  "verifyHmacSha256 hmac body secret provided \<longleftrightarrow>
     (\<exists>d. hmac (utf8 secret) (utf8 body) = Inr d \<and> stripPrefix provided = hex d)"
proof (cases "hmac (utf8 secret) (utf8 body)")
  case (Inl e)
  then show ?thesis by (simp add: verifyHmacSha256_def)
next
  case (Inr d)
  have a: "utf8 (hex d) = hex d" by (rule utf8_ascii [OF hex_ascii])
  have "utf8 (stripPrefix provided) = hex d \<longleftrightarrow> stripPrefix provided = hex d"
    using utf8_eq_ascii [OF hex_ascii] a by metis
  with Inr a show ?thesis
    by (auto simp: verifyHmacSha256_def timingSafeEqual_def Let_def)
qed

lemma flip_bit_neq: "flip_bit k (x::nat) \<noteq> x"
  by (metis bit_flip_bit_iff possible_bit_nat)

lemma flipBitAt_length: "length (flipBitAt s i k) = length s"
  by (simp add: flipBitAt_def)

lemma flipBitAt_neq: "i < length s \<Longrightarrow> flipBitAt s i k \<noteq> s"
proof
  assume i: "i < length s" and eq: "flipBitAt s i k = s"
  from eq have "flipBitAt s i k ! i = s ! i" by simp
  with i show False by (simp add: flipBitAt_def flip_bit_neq)
qed

lemma prefixed_decompose:
  assumes "take 7 p = ustr ''sha256=''"
  shows "p = ustr ''sha256='' @ drop 7 p" and "length p = 7 + length (drop 7 p)"
proof -
  from assms show p: "p = ustr ''sha256='' @ drop 7 p"
    by (metis append_take_drop_id)
  have "length (ustr ''sha256='') = 7" by (simp add: ustr_def)
  with p show "length p = 7 + length (drop 7 p)"
    by (metis length_append)
qed

lemma stripPrefix_mutation:
  assumes valid: "stripPrefix p = hex d"
    and len: "length q = length p" and neq: "q \<noteq> p"
  shows "stripPrefix q \<noteq> hex d"
proof (cases "take 7 p = ustr ''sha256=''")
  case True
  note p = prefixed_decompose [OF True]
  from True valid have h: "drop 7 p = hex d" by (simp add: stripPrefix_def)
  show ?thesis
  proof (cases "take 7 q = ustr ''sha256=''")
    case qT: True
    note q = prefixed_decompose [OF qT]
    from q(1) p(1) neq have "drop 7 q \<noteq> drop 7 p" by metis
    with qT h show ?thesis by (simp add: stripPrefix_def)
  next
    case False
    then have "stripPrefix q = q" by (simp add: stripPrefix_def)
    moreover from p(2) h len have "length q \<noteq> length (hex d)" by simp
    ultimately show ?thesis by metis
  qed
next
  case False
  with valid have h: "p = hex d" by (simp add: stripPrefix_def)
  show ?thesis
  proof (cases "take 7 q = ustr ''sha256=''")
    case qT: True
    note q = prefixed_decompose [OF qT]
    from qT have "stripPrefix q = drop 7 q" by (simp add: stripPrefix_def)
    moreover from q(2) len h have "length (drop 7 q) \<noteq> length (hex d)" by simp
    ultimately show ?thesis by metis
  next
    case qF: False
    with neq h show ?thesis by (simp add: stripPrefix_def)
  qed
qed

lemma split3: "(x div 4096) * 4096 + ((x div 64) mod 64) * 64 + x mod 64 = (x::nat)"
proof -
  have "x div 64 = (x div 64 div 64) * 64 + (x div 64) mod 64" by simp
  moreover have "x div 64 div 64 = x div 4096" by (simp add: div_mult2_eq [symmetric])
  moreover have "x = (x div 64) * 64 + x mod 64" by simp
  ultimately show ?thesis by algebra
qed

lemma split4:
  "(x div 262144) * 262144 + ((x div 4096) mod 64) * 4096 + ((x div 64) mod 64) * 64 + x mod 64
     = (x::nat)"
proof -
  have "x div 4096 = (x div 4096 div 64) * 64 + (x div 4096) mod 64" by simp
  moreover have "x div 4096 div 64 = x div 262144" by (simp add: div_mult2_eq [symmetric])
  ultimately have "(x div 262144) * 262144 + ((x div 4096) mod 64) * 4096 = (x div 4096) * 4096"
    by algebra
  with split3 [of x] show ?thesis by simp
qed

lemma decodeUtf8_one: "c < 0x80 \<Longrightarrow> decodeUtf8 (c # bs) = c # decodeUtf8 bs"
  by simp

lemma decodeUtf8_two:
  assumes "\<not> c < 0x80" "c < 0x800"
  shows "decodeUtf8 ((0xC0 + c div 64) # (0x80 + c mod 64) # bs) = c # decodeUtf8 bs"
proof -
  from assms have "c div 64 < 32" by (simp add: div_less_iff_less_mult)
  then have a: "\<not> 0xC0 + c div 64 < 0x80" "0xC0 + c div 64 < 0xE0" by simp_all
  have "c div 64 * 64 + c mod 64 = c" by simp
  with a show ?thesis by simp
qed

lemma decodeUtf8_three:
  assumes "\<not> c < 0x800" "c < 0x10000"
  shows "decodeUtf8 ((0xE0 + c div 4096) # (0x80 + (c div 64) mod 64) # (0x80 + c mod 64) # bs)
           = c # decodeUtf8 bs"
proof -
  from assms have "c div 4096 < 16" by (simp add: div_less_iff_less_mult)
  then have a: "\<not> 0xE0 + c div 4096 < 0x80" "\<not> 0xE0 + c div 4096 < 0xE0"
    "0xE0 + c div 4096 < 0xF0" by simp_all
  from a split3 [of c] show ?thesis by simp
qed

lemma decodeUtf8_four:
  assumes "0xD800 \<le> c" "c < 0xDC00" "0xDC00 \<le> d" "d < 0xE000"
    and cp: "cp = 0x10000 + (c - 0xD800) * 1024 + (d - 0xDC00)"
  shows "decodeUtf8 ((0xF0 + cp div 262144) # (0x80 + (cp div 4096) mod 64) #
                     (0x80 + (cp div 64) mod 64) # (0x80 + cp mod 64) # bs)
           = c # d # decodeUtf8 bs"
proof -
  have a: "\<not> 0xF0 + cp div 262144 < 0x80" "\<not> 0xF0 + cp div 262144 < 0xE0"
    "\<not> 0xF0 + cp div 262144 < 0xF0" by simp_all
  from assms have lo: "d - 0xDC00 < 1024" by simp
  have e: "cp - 0x10000 = (c - 0xD800) * 1024 + (d - 0xDC00)" using cp by simp
  from lo have "(cp - 0x10000) div 1024 = c - 0xD800" unfolding e by simp
  with assms have c: "0xD800 + (cp - 0x10000) div 1024 = c" by simp
  from lo have "(cp - 0x10000) mod 1024 = d - 0xDC00" unfolding e by simp
  with assms have d: "0xDC00 + (cp - 0x10000) mod 1024 = d" by simp
  from a c d split4 [of cp] show ?thesis by (simp add: Let_def)
qed

lemma decodeUtf8_nil: "decodeUtf8 [] = []"
  by simp

text \<open>Decoding undoes \<open>utf8\<close> on every well-formed string.\<close>

lemma decodeUtf8_utf8: "wellFormed s \<Longrightarrow> decodeUtf8 (utf8 s) = s"
proof (induction s rule: utf8.induct)
  case 1
  show ?case by simp
next
  case (2 c)
  then have w: "c < 0x10000" "\<not> (0xD800 \<le> c \<and> c < 0xE000)" by simp_all
  show ?case
  proof (cases "c < 0x80")
    case True
    then show ?thesis by simp
  next
    case n1: False
    show ?thesis
    proof (cases "c < 0x800")
      case True
      with n1 have "utf8 [c] = [0xC0 + c div 64, 0x80 + c mod 64]" by simp
      with decodeUtf8_two [OF n1 True, of "[]"] show ?thesis by simp
    next
      case n2: False
      with n1 w have "utf8 [c] = [0xE0 + c div 4096, 0x80 + (c div 64) mod 64, 0x80 + c mod 64]"
        by auto
      with decodeUtf8_three [OF n2 w(1), of "[]"] show ?thesis by simp
    qed
  qed
next
  case (3 c d ds)
  from "3.prems" have lt: "c < 0x10000" by simp
  show ?case
  proof (cases "0xD800 \<le> c \<and> c < 0xDC00")
    case hi: True
    with "3.prems" have d: "0xDC00 \<le> d" "d < 0xE000" and wf: "wellFormed ds" by simp_all
    from hi have n: "\<not> c < 0x80" "\<not> c < 0x800" by simp_all
    from hi d wf have ih: "decodeUtf8 (utf8 ds) = ds" by (intro "3.IH"(3)) simp_all
    define cp where "cp = 0x10000 + (c - 0xD800) * 1024 + (d - 0xDC00)"
    from hi d have cnd: "0xD800 \<le> c \<and> c < 0xDC00 \<and> 0xDC00 \<le> d \<and> d < 0xE000" by simp
    have "utf8 (c # d # ds) =
        (0xF0 + cp div 262144) # (0x80 + (cp div 4096) mod 64) #
        (0x80 + (cp div 64) mod 64) # (0x80 + cp mod 64) # utf8 ds"
      unfolding cp_def by (simp only: utf8.simps n cnd if_True if_False Let_def simp_thms)
    moreover from hi d have "decodeUtf8 ((0xF0 + cp div 262144) # (0x80 + (cp div 4096) mod 64) #
        (0x80 + (cp div 64) mod 64) # (0x80 + cp mod 64) # utf8 ds) = c # d # decodeUtf8 (utf8 ds)"
      by (intro decodeUtf8_four cp_def) simp_all
    ultimately show ?thesis using ih by (simp only:)
  next
    case nohi: False
    with "3.prems" have nolo: "\<not> (0xDC00 \<le> c \<and> c < 0xE000)" and wf: "wellFormed (d # ds)"
      by simp_all
    from nohi nolo have ns: "\<not> (0xD800 \<le> c \<and> c < 0xE000)" by auto
    show ?thesis
    proof (cases "c < 0x80")
      case True
      then have ih: "decodeUtf8 (utf8 (d # ds)) = d # ds" using wf by (intro "3.IH"(1)) simp_all
      from True have "utf8 (c # d # ds) = c # utf8 (d # ds)" by simp
      with decodeUtf8_one [OF True] ih show ?thesis by simp
    next
      case n1: False
      show ?thesis
      proof (cases "c < 0x800")
        case True
        with n1 wf have ih: "decodeUtf8 (utf8 (d # ds)) = d # ds" by (intro "3.IH"(2)) simp_all
        from n1 True have "utf8 (c # d # ds) =
            (0xC0 + c div 64) # (0x80 + c mod 64) # utf8 (d # ds)" by simp
        with decodeUtf8_two [OF n1 True] ih show ?thesis by simp
      next
        case n2: False
        with n1 ns nohi wf have ih: "decodeUtf8 (utf8 (d # ds)) = d # ds"
          by (intro "3.IH"(5)) auto
        from n1 n2 ns nohi have "utf8 (c # d # ds) =
            (0xE0 + c div 4096) # (0x80 + (c div 64) mod 64) # (0x80 + c mod 64) #
            utf8 (d # ds)" by auto
        with decodeUtf8_three [OF n2 lt] ih show ?thesis by simp
      qed
    qed
  qed
qed

text \<open>So two well-formed strings with the same UTF-8 encoding are the same string.\<close>

lemma utf8_inj: "wellFormed s \<Longrightarrow> wellFormed t \<Longrightarrow> utf8 s = utf8 t \<Longrightarrow> s = t"
  by (metis decodeUtf8_utf8)

text \<open>
  Well-formedness is needed there: \<open>utf8\<close> sends every lone surrogate to \<open>EF BF BD\<close>.
  Such strings are not among the bodies that \<open>request.text()\<close> yields.
\<close>

lemma lone_surrogates_share_encoding: "utf8 [0xD800] = utf8 [0xD801]"
  by simp

lemma body_mutation:
  assumes wf: "wellFormed B" "wellFormed B'" and neq: "B' \<noteq> B"
    and d: "hmac (utf8 S) (utf8 B) = Inr d"
    and nc: "\<not> collides hmac (utf8 S) (utf8 B) (utf8 B')"
  shows "\<not> verifyHmacSha256 hmac B' S (hex d)"
    and "\<not> verifyHmacSha256 hmac B' S (ustr ''sha256='' @ hex d)"
proof -
  from wf neq have m: "utf8 B \<noteq> utf8 B'" using utf8_inj by blast
  have "\<not> (\<exists>d'. hmac (utf8 S) (utf8 B') = Inr d' \<and> hex d = hex d')"
    using nc m d unfolding collides_def by blast
  then show "\<not> verifyHmacSha256 hmac B' S (hex d)"
    and "\<not> verifyHmacSha256 hmac B' S (ustr ''sha256='' @ hex d)"
    by (auto simp: verify_iff stripPrefix_hex stripPrefix_prefixed)
qed

text \<open>
  Claim C1. \<open>verifyHmacSha256\<close> always returns a boolean. It is true exactly when the
  HMAC computation yields a digest and the provided signature, with one leading
  \<open>sha256=\<close> removed if there is one, is the lower-case hexadecimal text of that digest.
  So the hexadecimal digest of \<open>B\<close> under \<open>S\<close> verifies with and without the prefix;
  flipping any bit of a signature that verifies gives one that does not; flipping any
  bit of the body gives a body that the signature of \<open>B\<close> does not verify, with or
  without the prefix; an exception of the HMAC computation gives \<open>false\<close>. In the
  clause on the body, both bodies are strings that \<open>request.text()\<close> can yield, so that
  the mutation changes the bytes that are hashed, and the HMAC primitive, a parameter
  here, does not collide on those two byte sequences.
\<close>

theorem verifyHmacSha256_characterised:
  "(verifyHmacSha256 hmac B S P \<longleftrightarrow>
      (\<exists>d. hmac (utf8 S) (utf8 B) = Inr d \<and> stripPrefix P = hex d)) \<and>
   (hmac (utf8 S) (utf8 B) = Inr d \<longrightarrow>
      verifyHmacSha256 hmac B S (hex d) \<and>
      verifyHmacSha256 hmac B S (ustr ''sha256='' @ hex d)) \<and>
   (verifyHmacSha256 hmac B S P \<and> i < length P \<longrightarrow>
      \<not> verifyHmacSha256 hmac B S (flipBitAt P i k)) \<and>
   (hmac (utf8 S) (utf8 B) = Inr d \<and> j < length B \<and>
    wellFormed B \<and> wellFormed (flipBitAt B j l) \<and>
    \<not> collides hmac (utf8 S) (utf8 B) (utf8 (flipBitAt B j l)) \<longrightarrow>
      \<not> verifyHmacSha256 hmac (flipBitAt B j l) S (hex d) \<and>
      \<not> verifyHmacSha256 hmac (flipBitAt B j l) S (ustr ''sha256='' @ hex d)) \<and>
   (hmac (utf8 S) (utf8 B) = Inl e \<longrightarrow> \<not> verifyHmacSha256 hmac B S P)"
proof (intro conjI impI)
  show "verifyHmacSha256 hmac B S P \<longleftrightarrow>
      (\<exists>d. hmac (utf8 S) (utf8 B) = Inr d \<and> stripPrefix P = hex d)"
    by (rule verify_iff)
next
  assume "hmac (utf8 S) (utf8 B) = Inr d"
  then show "verifyHmacSha256 hmac B S (hex d)"
    by (simp add: verify_iff stripPrefix_hex)
next
  assume "hmac (utf8 S) (utf8 B) = Inr d"
  then show "verifyHmacSha256 hmac B S (ustr ''sha256='' @ hex d)"
    by (simp add: verify_iff stripPrefix_prefixed)
next
  assume a: "verifyHmacSha256 hmac B S P \<and> i < length P"
  then obtain d0 where d0: "hmac (utf8 S) (utf8 B) = Inr d0" "stripPrefix P = hex d0"
    by (auto simp: verify_iff)
  from a have "stripPrefix (flipBitAt P i k) \<noteq> hex d0"
    by (intro stripPrefix_mutation [OF d0(2)] flipBitAt_length flipBitAt_neq) simp
  with d0 show "\<not> verifyHmacSha256 hmac B S (flipBitAt P i k)"
    by (simp add: verify_iff)
next
  assume a: "hmac (utf8 S) (utf8 B) = Inr d \<and> j < length B \<and>
    wellFormed B \<and> wellFormed (flipBitAt B j l) \<and>
    \<not> collides hmac (utf8 S) (utf8 B) (utf8 (flipBitAt B j l))"
  then have "flipBitAt B j l \<noteq> B" by (intro flipBitAt_neq) simp
  with a show "\<not> verifyHmacSha256 hmac (flipBitAt B j l) S (hex d)"
    by (intro body_mutation(1) [of B]) simp_all
next
  assume a: "hmac (utf8 S) (utf8 B) = Inr d \<and> j < length B \<and>
    wellFormed B \<and> wellFormed (flipBitAt B j l) \<and>
    \<not> collides hmac (utf8 S) (utf8 B) (utf8 (flipBitAt B j l))"
  then have "flipBitAt B j l \<noteq> B" by (intro flipBitAt_neq) simp
  with a show "\<not> verifyHmacSha256 hmac (flipBitAt B j l) S (ustr ''sha256='' @ hex d)"
    by (intro body_mutation(2) [of B]) simp_all
next
  assume "hmac (utf8 S) (utf8 B) = Inl e"
  then show "\<not> verifyHmacSha256 hmac B S P"
    by (simp add: verify_iff)
qed

text \<open>
  C1 at a concrete body and secret, with the stand-in HMAC: the hexadecimal digest of
  the body \<open>{}\<close> verifies with and without the prefix, not with its first bit flipped,
  not for the body \<open>z}\<close> that differs from \<open>{}\<close> in one bit, and not when the HMAC
  computation throws.
\<close>

theorem verifyHmacSha256_characterised_witness:
  "verifyHmacSha256 stubHmac (ustr ''{}'') (ustr ''k'') (hex [107, 123, 125]) \<and>
   verifyHmacSha256 stubHmac (ustr ''{}'') (ustr ''k'') (ustr ''sha256='' @ hex [107, 123, 125]) \<and>
   \<not> verifyHmacSha256 stubHmac (ustr ''{}'') (ustr ''k'') (flipBitAt (hex [107, 123, 125]) 0 0) \<and>
   flipBitAt (ustr ''{}'') 0 0 = ustr ''z}'' \<and>
   \<not> verifyHmacSha256 stubHmac (ustr ''z}'') (ustr ''k'') (hex [107, 123, 125]) \<and>
   \<not> verifyHmacSha256 stubHmac (ustr ''z}'') (ustr ''k'') (ustr ''sha256='' @ hex [107, 123, 125]) \<and>
   \<not> verifyHmacSha256 (\<lambda>k m. Inl TypeError) (ustr ''{}'') (ustr ''k'') (hex [107, 123, 125])"
proof -
  have d: "stubHmac (utf8 (ustr ''k'')) (utf8 (ustr ''{}'')) = Inr [107, 123, 125]"
    by (simp add: stubHmac_def ustr_def)
  have h: "0 < length (hex [107, 123, 125])"
    by (simp add: hex_def)
  have m: "flipBitAt (ustr ''{}'') 0 0 = ustr ''z}''"
    by (simp add: flipBitAt_def ustr_def flip_bit_eq_xor)
  have w: "wellFormed (ustr ''{}'')" "wellFormed (ustr ''z}'')" "0 < length (ustr ''{}'')"
    by (simp_all add: ustr_def)
  have nc: "\<not> collides stubHmac (utf8 (ustr ''k'')) (utf8 (ustr ''{}'')) (utf8 (ustr ''z}''))"
    by (simp add: collides_def stubHmac_def ustr_def hex_def hexDigit_def)
  note t = verifyHmacSha256_characterised
             [of stubHmac "ustr ''{}''" "ustr ''k''" "hex [107, 123, 125]" "[107, 123, 125]"
                 0 0 0 0]
  note u = verifyHmacSha256_characterised
             [of "\<lambda>k m. Inl TypeError" "ustr ''{}''" "ustr ''k''" "hex [107, 123, 125]" _ _ _ _ _
                 TypeError]
  from t d have a: "verifyHmacSha256 stubHmac (ustr ''{}'') (ustr ''k'') (hex [107, 123, 125])"
    and b: "verifyHmacSha256 stubHmac (ustr ''{}'') (ustr ''k'')
              (ustr ''sha256='' @ hex [107, 123, 125])"
    by blast+
  from t a h have c: "\<not> verifyHmacSha256 stubHmac (ustr ''{}'') (ustr ''k'')
                          (flipBitAt (hex [107, 123, 125]) 0 0)"
    by blast
  from t d w nc have e: "\<not> verifyHmacSha256 stubHmac (ustr ''z}'') (ustr ''k'') (hex [107, 123, 125])"
    and e': "\<not> verifyHmacSha256 stubHmac (ustr ''z}'') (ustr ''k'')
               (ustr ''sha256='' @ hex [107, 123, 125])"
    unfolding m by blast+
  from u have f: "\<not> verifyHmacSha256 (\<lambda>k m. Inl TypeError) (ustr ''{}'') (ustr ''k'')
                     (hex [107, 123, 125])"
    by simp
  from a b c m e e' f show ?thesis by simp
qed
section \<open>Agent identity: properties\<close>

lemma whenTruthy_yes: "truthy v \<Longrightarrow> whenTruthy v f rest = f (the v)"
  by (cases v) (auto simp: whenTruthy_def)

lemma whenTruthy_no: "\<not> truthy v \<Longrightarrow> whenTruthy v f rest = rest"
  by (cases v) (auto simp: whenTruthy_def)

lemma truthy_obj: "isObj v \<Longrightarrow> truthy v"
  by (cases v rule: isObj.cases) auto

lemma objOrNull_truthy: "truthy (objOrNull v) \<longleftrightarrow> isObj v"
  by (auto simp: objOrNull_def truthy_obj)

lemma flatField_coalesce:
  "coalesce (coalesce (getProp evt k) (optChain (getProp evt ''step'') k))
            (optChain (getProp evt ''run'') k) = flatField evt k"
  by (simp add: coalesce_def flatField_def)

lemma orJS_null_truthy: "truthy (orJS (orJS a b) (Some JNull)) \<longleftrightarrow> truthy a \<or> truthy b"
  by (simp add: orJS_def)

lemma orJS_first: "truthy a \<Longrightarrow> orJS (orJS a b) c = a"
  by (simp add: orJS_def)

lemma orJS_second: "\<not> truthy a \<Longrightarrow> truthy b \<Longrightarrow> orJS (orJS a b) c = b"
  by (simp add: orJS_def)

lemma extractAgent_eq:
  "extractAgent evt =
     (if truthy (rootAgentOf evt) then identityOf (rootAgentOf evt)
      else if truthy (targetAgentOf evt) then identityOf (targetAgentOf evt)
      else if truthy (stepAgentOf evt) then identityOf (stepAgentOf evt)
      else if truthy (lastStepAgentOf evt) then identityOf (lastStepAgentOf evt)
      else if truthy (flatField evt ''agent_id'') \<or> truthy (flatField evt ''agent_name'')
      then Some \<lparr>id' = flatField evt ''agent_id'', name' = flatField evt ''agent_name''\<rparr>
      else None)"
proof -
  have id: "\<And>v. truthy v \<Longrightarrow> identityOf v = Some \<lparr>id' = getProp (the v) ''id'', name' = getProp (the v) ''name''\<rparr>"
    by (case_tac v) (auto simp: identityOf_def)
  show ?thesis
    unfolding extractAgent_def Let_def flatField_coalesce
    unfolding rootAgentOf_def targetAgentOf_def stepAgentOf_def lastStepAgentOf_def
    by (simp add: whenTruthy_yes whenTruthy_no orJS_null_truthy orJS_first orJS_second id)
qed


lemma optChain_objOrNull: "optChain (objOrNull v) k = optChain v k"
  by (cases v rule: isObj.cases) (auto simp: objOrNull_def)

lemma optChain_nonobject: "\<not> isObj v \<Longrightarrow> optChain v k = None"
  by (cases v rule: isObj.cases) auto

lemma isObj_objOrNull: "isObj (objOrNull v) \<longleftrightarrow> isObj v"
  by (simp add: objOrNull_def)

lemma guarded_field:
  "(if isObj (objOrNull v) then optChain (objOrNull v) k else None) = optChain v k"
  by (simp add: isObj_objOrNull optChain_objOrNull optChain_nonobject)

lemma objOrNull_obj: "isObj v \<Longrightarrow> objOrNull v = v"
  by (simp add: objOrNull_def)

lemma orJS_obj_first: "isObj a \<Longrightarrow> orJS (objOrNull a) b = a"
  by (simp add: orJS_def objOrNull_obj truthy_obj)

lemma orJS_obj_second: "\<not> isObj a \<Longrightarrow> orJS (objOrNull a) b = b"
  by (simp add: orJS_def objOrNull_truthy)

lemma whenTruthy_objs:
  "whenTruthy (orJS (objOrNull a) (objOrNull b)) f rest =
     (if isObj a then f (the a) else if isObj b then f (the b) else rest)"
  by (cases "isObj a"; cases "isObj b")
     (auto simp: orJS_def objOrNull_def whenTruthy_def truthy_obj split: option.splits)

lemma whenTruthy_objs_null:
  "whenTruthy (orJS (orJS (objOrNull a) (objOrNull b)) (Some JNull)) f rest =
     (if isObj a then f (the a) else if isObj b then f (the b) else rest)"
  by (cases "isObj a"; cases "isObj b")
     (auto simp: orJS_def objOrNull_def whenTruthy_def truthy_obj split: option.splits)

lemma extractAgent_part000_eq:
  "extractAgent_part000 evt =
     (if isObj (rootAgentOf evt) then identityOf_part000 (rootAgentOf evt)
      else if isObj (targetAgentOf evt) then identityOf_part000 (targetAgentOf evt)
      else if isObj (stepAgentOf evt) then identityOf_part000 (stepAgentOf evt)
      else if isObj (lastStepAgentOf evt) then identityOf_part000 (lastStepAgentOf evt)
      else if truthy (flatField evt ''agent_id'') \<or> truthy (flatField evt ''agent_name'')
      then Some \<lparr>id' = asString (flatField evt ''agent_id''),
                  name' = asString (flatField evt ''agent_name'')\<rparr>
      else None)"
proof -
  have id: "\<And>v. isObj v \<Longrightarrow> identityOf_part000 v =
      Some \<lparr>id' = asString (getProp (the v) ''id''), name' = asString (getProp (the v) ''name'')\<rparr>"
    by (case_tac v) (auto simp: identityOf_part000_def)
  have g: "\<And>v k. (if isObj v then optChain v k else None) = optChain v k"
    by (simp add: optChain_nonobject)
  have "extractAgent_part000 evt =
     (if isObj (getProp evt ''agent'') then
        Some \<lparr>id' = asString (getProp (the (getProp evt ''agent'')) ''id''),
              name' = asString (getProp (the (getProp evt ''agent'')) ''name'')\<rparr>
      else if isObj (getProp evt ''target_agent'') then
        Some \<lparr>id' = asString (getProp (the (getProp evt ''target_agent'')) ''id''),
              name' = asString (getProp (the (getProp evt ''target_agent'')) ''name'')\<rparr>
      else if isObj (optChain (getProp evt ''step'') ''agent'') then
        Some \<lparr>id' = asString (getProp (the (optChain (getProp evt ''step'') ''agent'')) ''id''),
              name' = asString (getProp (the (optChain (getProp evt ''step'') ''agent'')) ''name'')\<rparr>
      else if isObj (optChain (optChain (getProp evt ''run'') ''last_step'') ''agent'') then
        Some \<lparr>id' = asString (getProp (the (optChain (optChain (getProp evt ''run'') ''last_step'') ''agent'')) ''id''),
              name' = asString (getProp (the (optChain (optChain (getProp evt ''run'') ''last_step'') ''agent'')) ''name'')\<rparr>
      else if truthy (flatField evt ''agent_id'') \<or> truthy (flatField evt ''agent_name'')
      then Some \<lparr>id' = asString (flatField evt ''agent_id''),
                  name' = asString (flatField evt ''agent_name'')\<rparr>
      else None)"
    unfolding extractAgent_part000_def Let_def
    by (simp only: whenTruthy_objs whenTruthy_objs_null optChain_objOrNull isObj_objOrNull g
          flatField_coalesce)
  then show ?thesis
    unfolding rootAgentOf_def targetAgentOf_def stepAgentOf_def lastStepAgentOf_def
    by (simp add: id)
qed

text \<open>
  Claim C3, as the code has it. \<open>extractAgent\<close> probes root \<open>agent\<close>, root
  \<open>target_agent\<close>, \<open>step.agent\<close> and \<open>run.last_step.agent\<close> in this order. The
  first of them that exists wins (a truthy value in \<open>route.ts\<close>, a non-null object in
  \<open>part_000\<close>), whether or not it has an \<open>id\<close> or a \<open>name\<close>, and its pair of
  fields is the result. Only when none exists are the flat fields read: the id is the
  first \<open>agent_id\<close> that is not null among root, \<open>step\<close> and \<open>run\<close>, the name is,
  on its own, the first such \<open>agent_name\<close>, and the pair is the result when one of
  the two is truthy, \<open>null\<close> otherwise.
\<close>

theorem extractAgent_decision_list:
  "extractAgent evt =
     (if truthy (rootAgentOf evt) then identityOf (rootAgentOf evt)
      else if truthy (targetAgentOf evt) then identityOf (targetAgentOf evt)
      else if truthy (stepAgentOf evt) then identityOf (stepAgentOf evt)
      else if truthy (lastStepAgentOf evt) then identityOf (lastStepAgentOf evt)
      else if truthy (flatField evt ''agent_id'') \<or> truthy (flatField evt ''agent_name'')
      then Some \<lparr>id' = flatField evt ''agent_id'', name' = flatField evt ''agent_name''\<rparr>
      else None) \<and>
   extractAgent_part000 evt =
     (if isObj (rootAgentOf evt) then identityOf_part000 (rootAgentOf evt)
      else if isObj (targetAgentOf evt) then identityOf_part000 (targetAgentOf evt)
      else if isObj (stepAgentOf evt) then identityOf_part000 (stepAgentOf evt)
      else if isObj (lastStepAgentOf evt) then identityOf_part000 (lastStepAgentOf evt)
      else if truthy (flatField evt ''agent_id'') \<or> truthy (flatField evt ''agent_name'')
      then Some \<lparr>id' = asString (flatField evt ''agent_id''),
                  name' = asString (flatField evt ''agent_name'')\<rparr>
      else None)"
  using extractAgent_eq extractAgent_part000_eq by (rule conjI)

text \<open>
  Claim C3 as it is worded fails on two events. With an empty root \<open>agent\<close> object
  and \<open>step.agent.id = "a1"\<close> the code stops at the root agent, which has neither
  field, where the claim asks for a match to have one. With \<open>agent_id\<close> at the root and
  \<open>agent_name\<close> under \<open>run\<close> the code returns both, where the claim lets the first
  location's pair stand alone.
\<close>

theorem extractAgent_match_counterexample:
  "extractAgent (JObj [(ustr ''agent'', JObj []),
                       (ustr ''step'', JObj [(ustr ''agent'', JObj [(ustr ''id'', JStr (ustr ''a1''))])])])
     = Some \<lparr>id' = None, name' = None\<rparr> \<and>
   extractAgent_part000 (JObj [(ustr ''agent'', JObj []),
                       (ustr ''step'', JObj [(ustr ''agent'', JObj [(ustr ''id'', JStr (ustr ''a1''))])])])
     = Some \<lparr>id' = None, name' = None\<rparr> \<and>
   extractAgent_claimed (JObj [(ustr ''agent'', JObj []),
                       (ustr ''step'', JObj [(ustr ''agent'', JObj [(ustr ''id'', JStr (ustr ''a1''))])])])
     = Some \<lparr>id' = Some (JStr (ustr ''a1'')), name' = None\<rparr> \<and>
   extractAgent (JObj [(ustr ''agent_id'', JStr (ustr ''x'')),
                       (ustr ''run'', JObj [(ustr ''agent_name'', JStr (ustr ''n''))])])
     = Some \<lparr>id' = Some (JStr (ustr ''x'')), name' = Some (JStr (ustr ''n''))\<rparr> \<and>
   extractAgent_part000 (JObj [(ustr ''agent_id'', JStr (ustr ''x'')),
                       (ustr ''run'', JObj [(ustr ''agent_name'', JStr (ustr ''n''))])])
     = Some \<lparr>id' = Some (ustr ''x''), name' = Some (ustr ''n'')\<rparr> \<and>
   extractAgent_claimed (JObj [(ustr ''agent_id'', JStr (ustr ''x'')),
                       (ustr ''run'', JObj [(ustr ''agent_name'', JStr (ustr ''n''))])])
     = Some \<lparr>id' = Some (JStr (ustr ''x'')), name' = None\<rparr>"
  by (simp add: extractAgent_eq extractAgent_part000_eq extractAgent_claimed_def claimedMatch_def
        rootAgentOf_def targetAgentOf_def stepAgentOf_def lastStepAgentOf_def flatField_def
        identityOf_def identityOf_part000_def ustr_def)

section \<open>Coercion and the result payload\<close>

text \<open>The spec's example: with no root agent, \<open>step.agent.id = "a1"\<close> resolves to
  the id \<open>a1\<close>, in both versions.\<close>

lemma extractAgent_step_fallback:
  "extractAgent (JObj [(ustr ''step'', JObj [(ustr ''agent'', JObj [(ustr ''id'', JStr (ustr ''a1''))])])])
     = Some \<lparr>id' = Some (JStr (ustr ''a1'')), name' = None\<rparr> \<and>
   extractAgent_part000
       (JObj [(ustr ''step'', JObj [(ustr ''agent'', JObj [(ustr ''id'', JStr (ustr ''a1''))])])])
     = Some \<lparr>id' = Some (ustr ''a1''), name' = None\<rparr>"
  by (simp add: extractAgent_eq extractAgent_part000_eq rootAgentOf_def targetAgentOf_def
        stepAgentOf_def identityOf_def identityOf_part000_def ustr_def)

lemma asString_iff: "asString v = Some s \<longleftrightarrow> v = Some (JStr s)"
  by (cases v rule: asString.cases) auto

lemma extractAgentResult_order:
  "extractAgentResult evt =
     (case find (\<lambda>v. \<not> nullish v)
             [getProp evt ''result'', getProp evt ''output'', getProp evt ''data'',
              optChain (getProp evt ''step'') ''result'',
              optChain (getProp evt ''step'') ''output'',
              optChain (getProp evt ''run'') ''result''] of
        Some v \<Rightarrow> v
      | None \<Rightarrow> Some JNull)"
  by (simp add: extractAgentResult_def coalesce_def)

lemma not_nullish_defined: "\<not> nullish v \<Longrightarrow> \<exists>y. v = Some y"
  by (cases v) auto

lemma extractAgentResult_defined: "extractAgentResult evt \<noteq> None"
  by (auto simp: extractAgentResult_def coalesce_def dest: not_nullish_defined)

text \<open>
  In \<open>part_000\<close> the claim C7 holds: the identity returned is that of one candidate
  object, or the pair of flat fields, and each of its two fields went through
  \<open>asString\<close>, which keeps a string and makes everything else absent.
\<close>

lemma asString_absent: "asString v = None \<longleftrightarrow> (\<forall>s. v \<noteq> Some (JStr s))"
  by (cases v rule: asString.cases) auto

lemma extractAgent_part000_coerces:
  assumes "extractAgent_part000 evt = Some a"
  shows "(\<exists>c. c \<in> {rootAgentOf evt, targetAgentOf evt, stepAgentOf evt, lastStepAgentOf evt} \<and>
            isObj c \<and>
            a = \<lparr>id' = asString (getProp (the c) ''id''),
                 name' = asString (getProp (the c) ''name'')\<rparr>) \<or>
         a = \<lparr>id' = asString (flatField evt ''agent_id''),
              name' = asString (flatField evt ''agent_name'')\<rparr>"
proof -
  have id: "\<And>v. isObj v \<Longrightarrow> identityOf_part000 v =
      Some \<lparr>id' = asString (getProp (the v) ''id''), name' = asString (getProp (the v) ''name'')\<rparr>"
    by (case_tac v) (auto simp: identityOf_part000_def)
  from assms show ?thesis
    unfolding extractAgent_part000_eq
    by (auto split: if_splits simp: id)
qed

text \<open>
  Claim C7 fails on \<open>extractAgent\<close> of \<open>route.ts\<close>: an agent whose \<open>id\<close> is the
  number 42 is returned with that number as its id. The function of \<open>part_000\<close>
  returns the same agent with no id.
\<close>

theorem extractAgent_passes_non_strings:
  "extractAgent (JObj [(ustr ''agent'', JObj [(ustr ''id'', JNum (Number False (ustr ''42''))),
                                              (ustr ''name'', JStr (ustr ''Agent1''))])])
     = Some \<lparr>id' = Some (JNum (Number False (ustr ''42''))),
             name' = Some (JStr (ustr ''Agent1''))\<rparr> \<and>
   extractAgent_part000
       (JObj [(ustr ''agent'', JObj [(ustr ''id'', JNum (Number False (ustr ''42''))),
                                      (ustr ''name'', JStr (ustr ''Agent1''))])])
     = Some \<lparr>id' = None, name' = Some (ustr ''Agent1'')\<rparr>"
  by (simp add: extractAgent_eq extractAgent_part000_eq rootAgentOf_def identityOf_def
        identityOf_part000_def ustr_def)

section \<open>The webhook handler: properties\<close>

lemma appendToSheet_calls: "calls (snd (appendToSheet w e row s)) = calls s @ [row]"
  by (auto simp: appendToSheet_def Let_def split: option.splits sum.splits)

lemma appendToSheet_rows:
  "rows (snd (appendToSheet w e row s)) = rows s \<or>
   (\<exists>r. rows (snd (appendToSheet w e row s)) = rows s @ [r])"
  by (auto simp: appendToSheet_def Let_def split: option.splits sum.splits)

lemma POST_store_eq:
  "POST_store w e evt (resolvedAgentId evt) (resolvedAgentName evt) s =
     (case runIdOf evt of
        Inl err \<Rightarrow> (Thrown err, s)
      | Inr rid \<Rightarrow>
          (case userIdOf evt of
             Inl err \<Rightarrow> (Thrown err, s)
           | Inr uid \<Rightarrow>
               (case appendToSheet w e (rowOf w evt rid uid) s of
                  (Inl err, s') \<Rightarrow> (appendFailed, s')
                | (Inr u, s') \<Rightarrow> (handled, s'))))"
  unfolding POST_store_def runIdOf_def userIdOf_def rowOf_def appendFailed_def handled_def
    resolvedAgentId_def resolvedAgentName_def Let_def
  by (rule refl)

lemma POST_event_eq:
  "POST_event w e evt s =
     (case eventTypeOf evt of
        Inl err \<Rightarrow> (Thrown err, s)
      | Inr t \<Rightarrow>
          if \<not> testCompleted t then (ignored, s)
          else if targetAgentId e \<noteq> [] then
            (if \<not> truthy (Some (resolvedAgentId evt)) \<or> resolvedAgentId evt \<noteq> JStr (targetAgentId e)
             then (ignoredBecause ''agent_id mismatch'', s)
             else POST_store w e evt (resolvedAgentId evt) (resolvedAgentName evt) s)
          else if targetAgentName e \<noteq> [] then
            (if \<not> truthy (Some (resolvedAgentName evt)) \<or>
                resolvedAgentName evt \<noteq> JStr (targetAgentName e)
             then (ignoredBecause ''agent_name mismatch'', s)
             else POST_store w e evt (resolvedAgentId evt) (resolvedAgentName evt) s)
          else POST_store w e evt (resolvedAgentId evt) (resolvedAgentName evt) s)"
  unfolding POST_event_def eventTypeOf_def targetAgentId_def targetAgentName_def
    resolvedAgentId_def resolvedAgentName_def ignored_def ignoredBecause_def Let_def
  by (rule refl)

lemma POST_eq:
  "POST w e req s =
     (if \<not> secretConfigured e then (missingSecret, s)
      else if \<not> signatureValid w e req then (invalidSignature, s)
      else (case (if rawBody req \<noteq> [] then JSON_parse w (rawBody req) else Inr JNull) of
              Inl err \<Rightarrow> (invalidJson, s)
            | Inr evt \<Rightarrow> if \<not> truthy (Some evt) then (emptyEvent, s) else POST_event w e evt s))"
  unfolding POST_def secretConfigured_def signatureValid_def missingSecret_def
    invalidSignature_def invalidJson_def emptyEvent_def
  by (rule refl)


lemma ignoredBecause_distinct:
  "missingSecret \<noteq> ignoredBecause r" "invalidSignature \<noteq> ignoredBecause r"
  "invalidJson \<noteq> ignoredBecause r" "emptyEvent \<noteq> ignoredBecause r"
  "ignored \<noteq> ignoredBecause r" "Thrown err \<noteq> ignoredBecause r"
  by (simp_all add: missingSecret_def invalidSignature_def invalidJson_def emptyEvent_def
        ignored_def ignoredBecause_def json_def)

lemma POST_early:
  "\<not> completionEvent w req evt \<Longrightarrow> rawBody req \<noteq> [] \<Longrightarrow> JSON_parse w (rawBody req) = Inr evt
     \<Longrightarrow> truthy (Some evt)
     \<Longrightarrow> snd (POST_event w e evt s) = s \<and> fst (POST_event w e evt s) \<noteq> ignoredBecause r"
  by (auto simp: POST_event_eq completionEvent_def ignoredBecause_distinct split: sum.splits)

lemma gates_passed:
  assumes "calls (snd (POST w e req s)) \<noteq> calls s \<or> fst (POST w e req s) = ignoredBecause r"
  shows "secretConfigured e \<and> signatureValid w e req \<and> (\<exists>evt. completionEvent w req evt)"
proof -
  from assms have c: "secretConfigured e" and v: "signatureValid w e req"
    by (auto simp: POST_eq ignoredBecause_distinct split: if_splits)
  from assms c v have b: "rawBody req \<noteq> []"
    by (auto simp: POST_eq ignoredBecause_distinct split: if_splits)
  from assms c v b obtain evt where p: "JSON_parse w (rawBody req) = Inr evt"
    by (cases "JSON_parse w (rawBody req)") (auto simp: POST_eq ignoredBecause_distinct)
  from assms c v b p have t: "truthy (Some evt)"
    by (auto simp: POST_eq ignoredBecause_distinct split: if_splits)
  from c v b p t have "POST w e req s = POST_event w e evt s"
    by (simp add: POST_eq)
  moreover have "\<not> completionEvent w req evt \<Longrightarrow>
      snd (POST_event w e evt s) = s \<and> fst (POST_event w e evt s) \<noteq> ignoredBecause r"
    by (rule POST_early [OF _ b p t])
  ultimately have "completionEvent w req evt"
    using assms by (cases "completionEvent w req evt") auto
  with c v show ?thesis by blast
qed

lemma falsy_iff:
  "\<not> truthy (Some v) \<longleftrightarrow>
     v = JNull \<or> v = JBool False \<or> v = JStr [] \<or> (\<exists>n. v = JNum n \<and> isZero n)"
  by (cases v) auto

text \<open>
  Claim C2, as the code has it. The gates of \<open>POST\<close> in their order, each with its
  response and an untouched store: without the shared secret, status 500 whatever the
  signature is; with it and a signature that does not verify against the raw body,
  status 401 \<open>Invalid signature\<close>; then a body that is not empty and does not parse,
  status 400 \<open>Invalid JSON\<close>; an empty body or one that parses to a falsy value, which
  is \<open>null\<close>, \<open>false\<close>, zero or the empty string, status 400 \<open>Empty event\<close>; an event,
  that is a parsed value that is not falsy, whose type, the string that the handler
  makes of what it reads at \<open>type\<close> then \<open>event\<close>, does not contain \<open>completed\<close> in
  any letter case, status 200 with \<open>ignored\<close>. And only a request that passed all of
  them reaches the identity filter or \<open>appendToSheet\<close>.
\<close>

theorem POST_gates:
  "(\<not> secretConfigured e \<longrightarrow> POST w e req s = (missingSecret, s)) \<and>
   (secretConfigured e \<and> \<not> signatureValid w e req \<longrightarrow> POST w e req s = (invalidSignature, s)) \<and>
   (secretConfigured e \<and> signatureValid w e req \<and> rawBody req \<noteq> [] \<and>
      JSON_parse w (rawBody req) = Inl err \<longrightarrow> POST w e req s = (invalidJson, s)) \<and>
   (secretConfigured e \<and> signatureValid w e req \<and>
      (rawBody req = [] \<or> JSON_parse w (rawBody req) = Inr v \<and> \<not> truthy (Some v)) \<longrightarrow>
      POST w e req s = (emptyEvent, s)) \<and>
   (secretConfigured e \<and> signatureValid w e req \<and> rawBody req \<noteq> [] \<and>
      JSON_parse w (rawBody req) = Inr evt \<and> truthy (Some evt) \<and>
      eventTypeOf evt = Inr t \<and> \<not> testCompleted t \<longrightarrow> POST w e req s = (ignored, s)) \<and>
   (calls (snd (POST w e req s)) \<noteq> calls s \<or>
      fst (POST w e req s) = ignoredBecause ''agent_id mismatch'' \<or>
      fst (POST w e req s) = ignoredBecause ''agent_name mismatch'' \<longrightarrow>
      secretConfigured e \<and> signatureValid w e req \<and> (\<exists>ev. completionEvent w req ev))"
proof (intro conjI impI)
  assume "calls (snd (POST w e req s)) \<noteq> calls s \<or>
      fst (POST w e req s) = ignoredBecause ''agent_id mismatch'' \<or>
      fst (POST w e req s) = ignoredBecause ''agent_name mismatch''"
  then show "secretConfigured e" "signatureValid w e req" "\<exists>ev. completionEvent w req ev"
    using gates_passed [of w e req s] by blast+
qed (auto simp: POST_eq POST_event_eq)


lemma demo_secret: "secretConfigured (demoEnv a b)"
  by (simp add: secretConfigured_def demoEnv_def present_def ustr_def)

lemma demo_signature:
  "signatureValid (demoWorld t) (demoEnv a b) (signedRequest (ustr ''whsec'') body)"
proof -
  have "providedSig (signedRequest (ustr ''whsec'') body) =
          ustr ''sha256='' @ hex (utf8 (ustr ''whsec'') @ utf8 body)"
    by (simp add: providedSig_def signedRequest_def present_def ustr_def)
  then show ?thesis
    by (simp add: signatureValid_def verify_iff demoWorld_def demoEnv_def stubHmac_def
          signedRequest_def stripPrefix_prefixed)
qed

lemma demo_unsigned:
  "\<not> signatureValid (demoWorld t) (demoEnv a b) \<lparr>rawBody = body, headersGet = (\<lambda>h. None)\<rparr>"
proof -
  have "hex (utf8 (ustr ''whsec'') @ utf8 body) \<noteq> []"
    by (simp add: hex_def ustr_def)
  then show ?thesis
    by (auto simp: signatureValid_def verify_iff demoWorld_def demoEnv_def stubHmac_def
          providedSig_def present_def stripPrefix_def)
qed

lemma demo_parse:
  "JSON_parse (demoWorld t) body = (case map_of t body of Some v \<Rightarrow> Inr v | None \<Rightarrow> Inl SyntaxError)"
  by (simp add: demoWorld_def)

lemma demo_append:
  "appendToSheet (demoWorld t) (demoEnv a b) r s =
     (Inr (), s\<lparr>calls := calls s @ [r], rows := rows s @ [cellsOf r]\<rparr>)"
  by (simp add: appendToSheet_def demoWorld_def demoEnv_def cellsOf_def present_def ustr_def)

lemma demo_bodies:
  "completedBody \<noteq> []" "startedBody \<noteq> []" "falseResultBody \<noteq> []" "objectRunIdBody \<noteq> []"
  by (simp_all add: completedBody_def startedBody_def falseResultBody_def objectRunIdBody_def
        ustr_def)

lemma demo_table:
  "map_of demoTable completedBody = Some completedEvent"
  "map_of demoTable startedBody = Some startedEvent"
  "map_of demoTable falseResultBody = Some falseResultEvent"
  "map_of demoTable objectRunIdBody = Some objectRunIdEvent"
  "map_of demoTable (ustr ''{'') = None"
  by code_simp+

lemma demo_types:
  "eventTypeOf completedEvent = Inr (ustr ''run.completed'')"
  "eventTypeOf startedEvent = Inr (ustr ''run.started'')"
  "eventTypeOf falseResultEvent = Inr (ustr ''run.completed'')"
  "eventTypeOf objectRunIdEvent = Inr (ustr ''run.completed'')"
  "testCompleted (ustr ''run.completed'')"
  "\<not> testCompleted (ustr ''run.started'')"
  by code_simp+

lemma demo_truthy:
  "truthy (Some completedEvent)" "truthy (Some startedEvent)" "truthy (Some falseResultEvent)"
  "truthy (Some objectRunIdEvent)"
  by (simp_all add: completedEvent_def startedEvent_def falseResultEvent_def objectRunIdEvent_def)

lemma demo_targets:
  "targetAgentId (demoEnv None b) = []" "targetAgentName (demoEnv a None) = []"
  "targetAgentId (demoEnv (Some (ustr ''a1'')) b) = ustr ''a1''"
  "targetAgentId (demoEnv (Some (ustr ''a2'')) b) = ustr ''a2''"
  "targetAgentName (demoEnv a (Some (ustr ''Agent2''))) = ustr ''Agent2''"
  by (simp_all add: targetAgentId_def targetAgentName_def demoEnv_def trim_def isWhiteSpace_def
        ustr_def)

lemma demo_fields:
  "resolvedAgentId completedEvent = JStr (ustr ''a1'')"
  "resolvedAgentName completedEvent = JStr (ustr ''Agent1'')"
  "runIdOf completedEvent = Inr []" "userIdOf completedEvent = Inr []"
  "resolvedAgentId falseResultEvent = JStr []"
  "resolvedAgentName falseResultEvent = JStr []"
  "runIdOf falseResultEvent = Inr []" "userIdOf falseResultEvent = Inr []"
  "runIdOf objectRunIdEvent = Inl TypeError"
  "extractAgentResult falseResultEvent = Some (JBool False)"
  "extractAgentResult completedEvent = Some (JObj [(ustr ''x'', JNum (Number False (ustr ''1'')))])"
  by code_simp+

lemma demo_completion:
  "completionEvent (demoWorld demoTable) (signedRequest k completedBody) completedEvent"
  "completionEvent (demoWorld demoTable) (signedRequest k falseResultBody) falseResultEvent"
  "completionEvent (demoWorld demoTable) (signedRequest k objectRunIdBody) objectRunIdEvent"
  by (simp_all add: completionEvent_def signedRequest_def demo_parse demo_table demo_bodies
        demo_types demo_truthy)


lemma POST_demo_event:
  assumes "map_of demoTable body = Some evt" "body \<noteq> []" "truthy (Some evt)"
  shows "POST (demoWorld demoTable) (demoEnv a b) (signedRequest (ustr ''whsec'') body) s =
           POST_event (demoWorld demoTable) (demoEnv a b) evt s"
proof -
  have "rawBody (signedRequest (ustr ''whsec'') body) = body"
    by (simp add: signedRequest_def)
  with assms show ?thesis
    by (simp add: POST_eq demo_secret demo_signature demo_parse)
qed

lemma POST_event_filtered:
  assumes "eventTypeOf evt = Inr t" "testCompleted t"
  shows "POST_event w e evt s =
           (if passesFilter e evt
            then POST_store w e evt (resolvedAgentId evt) (resolvedAgentName evt) s
            else if targetAgentId e \<noteq> [] then (ignoredBecause ''agent_id mismatch'', s)
            else (ignoredBecause ''agent_name mismatch'', s))"
  using assms by (auto simp: POST_event_eq passesFilter_def)

lemma POST_event_accepted:
  assumes "eventTypeOf evt = Inr t" "testCompleted t" "passesFilter e evt"
    "runIdOf evt = Inr rid" "userIdOf evt = Inr uid"
  shows "POST_event w e evt s =
           (case appendToSheet w e (rowOf w evt rid uid) s of
              (Inl err, s') \<Rightarrow> (appendFailed, s')
            | (Inr u, s') \<Rightarrow> (handled, s'))"
  using assms by (simp add: POST_event_filtered POST_store_eq)

lemma demo_filter:
  "passesFilter (demoEnv (Some (ustr ''a1'')) None) completedEvent"
  "passesFilter (demoEnv None None) evt"
  "\<not> passesFilter (demoEnv (Some (ustr ''a2'')) None) completedEvent"
  "\<not> passesFilter (demoEnv None (Some (ustr ''Agent2''))) completedEvent"
  by (simp_all add: passesFilter_def demo_targets demo_fields) (simp_all add: ustr_def)

lemma POST_completed_accepted:
  "POST (demoWorld demoTable) (demoEnv (Some (ustr ''a1'')) None)
        (signedRequest (ustr ''whsec'') completedBody) s =
     (handled,
      s\<lparr>calls := calls s @ [rowOf (demoWorld demoTable) completedEvent [] []],
        rows := rows s @ [cellsOf (rowOf (demoWorld demoTable) completedEvent [] [])]\<rparr>)"
  by (simp add: POST_demo_event [OF demo_table(1) demo_bodies(1) demo_truthy(1)]
        POST_event_accepted [OF demo_types(1) demo_types(5) demo_filter(1) demo_fields(3,4)]
        demo_append)

text \<open>The spec's example: the completion event of agent \<open>a1\<close> with
  \<open>TARGET_AGENT_ID=a1\<close> is answered \<open>{ok: true}\<close> and one row is appended, with
  agent id \<open>a1\<close> and the data \<open>{"x":1}\<close>.\<close>

lemma completed_row:
  \<open>agentId (rowOf (demoWorld demoTable) completedEvent [] []) = JStr (ustr ''a1'') \<and>
   dataJson (rowOf (demoWorld demoTable) completedEvent [] []) = ustr ''{"x":1}''\<close>
proof -
  have \<open>textOf demoTable (JObj [(ustr ''x'', JNum (Number False (ustr ''1'')))]) = ustr ''{"x":1}''\<close>
    by code_simp
  then show ?thesis
    by (simp add: rowOf_def demo_fields demoWorld_def)
qed

text \<open>Each gate of C2 at a concrete request, and a request that reaches the append.\<close>

theorem POST_gates_witness:
  "POST (demoWorld demoTable) ((demoEnv None None)\<lparr>OPENAI_WEBHOOK_SECRET := None\<rparr>)
        (signedRequest (ustr ''whsec'') completedBody) emptyStore = (missingSecret, emptyStore) \<and>
   POST (demoWorld demoTable) (demoEnv None None)
        \<lparr>rawBody = completedBody, headersGet = (\<lambda>h. None)\<rparr> emptyStore
     = (invalidSignature, emptyStore) \<and>
   POST (demoWorld demoTable) (demoEnv None None) (signedRequest (ustr ''whsec'') (ustr ''{''))
        emptyStore = (invalidJson, emptyStore) \<and>
   POST (demoWorld demoTable) (demoEnv None None) (signedRequest (ustr ''whsec'') []) emptyStore
     = (emptyEvent, emptyStore) \<and>
   POST (demoWorld demoTable) (demoEnv None None) (signedRequest (ustr ''whsec'') (ustr ''null''))
        emptyStore = (emptyEvent, emptyStore) \<and>
   POST (demoWorld demoTable) (demoEnv None None) (signedRequest (ustr ''whsec'') startedBody)
        emptyStore = (ignored, emptyStore) \<and>
   (\<exists>ev. completionEvent (demoWorld demoTable) (signedRequest (ustr ''whsec'') completedBody) ev)"
proof -
  let ?W = "demoWorld demoTable" and ?E = "demoEnv None None"
  have 1: "\<not> secretConfigured (?E\<lparr>OPENAI_WEBHOOK_SECRET := None\<rparr>)"
    by (simp add: secretConfigured_def present_def)
  have r: "\<And>body. rawBody (signedRequest (ustr ''whsec'') body) = body"
    by (simp add: signedRequest_def)
  have 3: "rawBody (signedRequest (ustr ''whsec'') (ustr ''{'')) \<noteq> []"
    "JSON_parse ?W (rawBody (signedRequest (ustr ''whsec'') (ustr ''{''))) = Inl SyntaxError"
    by (simp_all add: r demo_parse demo_table) (simp add: ustr_def)
  have n: "map_of demoTable (ustr ''null'') = Some JNull"
    by code_simp
  have 4: "JSON_parse ?W (rawBody (signedRequest (ustr ''whsec'') (ustr ''null''))) = Inr JNull"
    "\<not> truthy (Some JNull)"
    by (simp_all add: r demo_parse n)
  have 5: "JSON_parse ?W (rawBody (signedRequest (ustr ''whsec'') startedBody)) = Inr startedEvent"
    by (simp add: r demo_parse demo_table)
  have 6: "calls (snd (POST ?W (demoEnv (Some (ustr ''a1'')) None)
              (signedRequest (ustr ''whsec'') completedBody) emptyStore)) \<noteq> calls emptyStore"
    by (simp add: POST_completed_accepted)
  note g = POST_gates [of _ ?W _ emptyStore]
  from g [of "?E\<lparr>OPENAI_WEBHOOK_SECRET := None\<rparr>" "signedRequest (ustr ''whsec'') completedBody"] 1
  have a: "POST ?W (?E\<lparr>OPENAI_WEBHOOK_SECRET := None\<rparr>)
              (signedRequest (ustr ''whsec'') completedBody) emptyStore = (missingSecret, emptyStore)"
    by blast
  from g [of ?E "\<lparr>rawBody = completedBody, headersGet = (\<lambda>h. None)\<rparr>"] demo_secret demo_unsigned
  have b: "POST ?W ?E \<lparr>rawBody = completedBody, headersGet = (\<lambda>h. None)\<rparr> emptyStore
             = (invalidSignature, emptyStore)"
    by blast
  from g [of ?E "signedRequest (ustr ''whsec'') (ustr ''{'')" SyntaxError] demo_secret
    demo_signature 3
  have c: "POST ?W ?E (signedRequest (ustr ''whsec'') (ustr ''{'')) emptyStore
             = (invalidJson, emptyStore)"
    by blast
  from g [of ?E "signedRequest (ustr ''whsec'') []"] demo_secret demo_signature r [of "[]"]
  have d: "POST ?W ?E (signedRequest (ustr ''whsec'') []) emptyStore = (emptyEvent, emptyStore)"
    by blast
  from g [of ?E "signedRequest (ustr ''whsec'') (ustr ''null'')" _ JNull] demo_secret
    demo_signature 4
  have d': "POST ?W ?E (signedRequest (ustr ''whsec'') (ustr ''null'')) emptyStore
              = (emptyEvent, emptyStore)"
    by blast
  from g [of ?E "signedRequest (ustr ''whsec'') startedBody" _ _ startedEvent "ustr ''run.started''"]
    demo_secret demo_signature 5 demo_bodies(2) r [of startedBody] demo_truthy(2) demo_types(2,6)
  have e: "POST ?W ?E (signedRequest (ustr ''whsec'') startedBody) emptyStore = (ignored, emptyStore)"
    by metis
  from g [of "demoEnv (Some (ustr ''a1'')) None" "signedRequest (ustr ''whsec'') completedBody"] 6
  have f: "\<exists>ev. completionEvent ?W (signedRequest (ustr ''whsec'') completedBody) ev"
    by blast
  from a b c d d' e f show ?thesis by blast
qed

text \<open>
  The claim's "an empty body or one parsing to null" is not all that is answered
  \<open>Empty event\<close>, and not every other valid body goes on to the check of the type. The
  validly signed body \<open>false\<close> is not empty, is valid JSON and does not parse to
  \<open>null\<close>, and nothing read at \<open>type\<close> then \<open>event\<close> contains \<open>completed\<close>; the
  handler answers it 400 \<open>Empty event\<close>, not 200 with \<open>ignored\<close>.
\<close>

theorem POST_falsy_body_counterexample:
  "secretConfigured (demoEnv None None) \<and>
   signatureValid (demoWorld demoTable) (demoEnv None None)
     (signedRequest (ustr ''whsec'') (ustr ''false'')) \<and>
   rawBody (signedRequest (ustr ''whsec'') (ustr ''false'')) = ustr ''false'' \<and>
   ustr ''false'' \<noteq> [] \<and>
   JSON_parse (demoWorld demoTable) (ustr ''false'') = Inr (JBool False) \<and>
   JBool False \<noteq> JNull \<and>
   eventTypeOf (JBool False) = Inr [] \<and> \<not> testCompleted [] \<and>
   POST (demoWorld demoTable) (demoEnv None None)
        (signedRequest (ustr ''whsec'') (ustr ''false'')) emptyStore = (emptyEvent, emptyStore) \<and>
   emptyEvent \<noteq> ignored"
proof -
  let ?W = "demoWorld demoTable" and ?E = "demoEnv None None"
  let ?R = "signedRequest (ustr ''whsec'') (ustr ''false'')"
  have r: "rawBody ?R = ustr ''false''"
    by (simp add: signedRequest_def)
  have b: "ustr ''false'' \<noteq> []"
    by (simp add: ustr_def)
  have "map_of demoTable (ustr ''false'') = Some (JBool False)"
    by code_simp
  then have p: "JSON_parse ?W (ustr ''false'') = Inr (JBool False)"
    by (simp add: demo_parse)
  have t: "eventTypeOf (JBool False) = Inr []" "\<not> testCompleted []"
    by code_simp+
  have "POST ?W ?E ?R emptyStore = (emptyEvent, emptyStore)"
    by (simp add: POST_eq demo_secret demo_signature r b p)
  moreover have "emptyEvent \<noteq> ignored"
    by (simp add: emptyEvent_def ignored_def json_def)
  ultimately show ?thesis
    using demo_secret [of None None] demo_signature [of demoTable None None "ustr ''false''"]
      r b p t
    by simp
qed


lemma POST_completion:
  assumes "secretConfigured e" "signatureValid w e req" "completionEvent w req evt"
  shows "POST w e req s =
           (if passesFilter e evt
            then POST_store w e evt (resolvedAgentId evt) (resolvedAgentName evt) s
            else if targetAgentId e \<noteq> [] then (ignoredBecause ''agent_id mismatch'', s)
            else (ignoredBecause ''agent_name mismatch'', s))"
proof -
  from assms(3) obtain t where t: "eventTypeOf evt = Inr t" "testCompleted t"
    by (auto simp: completionEvent_def split: sum.splits)
  from assms have "POST w e req s = POST_event w e evt s"
    by (simp add: POST_eq completionEvent_def)
  with t show ?thesis by (simp add: POST_event_filtered)
qed

lemma POST_accepted:
  assumes "secretConfigured e" "signatureValid w e req" "completionEvent w req evt"
    "passesFilter e evt" "runIdOf evt = Inr rid" "userIdOf evt = Inr uid"
  shows "POST w e req s =
           (case appendToSheet w e (rowOf w evt rid uid) s of
              (Inl err, s') \<Rightarrow> (appendFailed, s')
            | (Inr u, s') \<Rightarrow> (handled, s'))"
  using assms by (simp add: POST_completion POST_store_eq)

lemma POST_thrown:
  assumes "secretConfigured e" "signatureValid w e req" "completionEvent w req evt"
    "passesFilter e evt" "runIdOf evt = Inl err"
  shows "POST w e req s = (Thrown err, s)"
  using assms by (simp add: POST_completion POST_store_eq)

lemma POST_store_calls:
  assumes "runIdOf evt = Inr rid" "userIdOf evt = Inr uid"
  shows "calls (snd (POST_store w e evt (resolvedAgentId evt) (resolvedAgentName evt) s))
           = calls s @ [rowOf w evt rid uid]"
proof -
  obtain r s' where a: "appendToSheet w e (rowOf w evt rid uid) s = (r, s')"
    by (cases "appendToSheet w e (rowOf w evt rid uid) s")
  then have "calls s' = calls s @ [rowOf w evt rid uid]"
    using appendToSheet_calls [of w e "rowOf w evt rid uid" s] by simp
  with assms a show ?thesis
    by (cases r) (simp_all add: POST_store_eq)
qed

lemma appendToSheet_env:
  assumes "GOOGLE_SHEETS_ID e' = GOOGLE_SHEETS_ID e" "GOOGLE_SHEETS_TAB e' = GOOGLE_SHEETS_TAB e"
    "GOOGLE_SA_CLIENT_EMAIL e' = GOOGLE_SA_CLIENT_EMAIL e"
    "GOOGLE_SA_PRIVATE_KEY e' = GOOGLE_SA_PRIVATE_KEY e"
  shows "appendToSheet w e' = appendToSheet w e"
  unfolding appendToSheet_def assms by (rule refl)

lemma name_filter_unread:
  "secretConfigured (e\<lparr>TARGET_AGENT_NAME := x\<rparr>) = secretConfigured e"
  "signatureValid w (e\<lparr>TARGET_AGENT_NAME := x\<rparr>) req = signatureValid w e req"
  "targetAgentId (e\<lparr>TARGET_AGENT_NAME := x\<rparr>) = targetAgentId e"
  by (simp_all add: secretConfigured_def signatureValid_def targetAgentId_def)

lemma appendToSheet_name_unread:
  "appendToSheet w (e\<lparr>TARGET_AGENT_NAME := x\<rparr>) = appendToSheet w e"
  by (rule appendToSheet_env) simp_all

lemma POST_store_name_unread:
  "POST_store w (e\<lparr>TARGET_AGENT_NAME := x\<rparr>) evt a n s = POST_store w e evt a n s"
  unfolding POST_store_def appendToSheet_name_unread by (rule refl)

text \<open>
  Claim C6, for a completion event that passed the signature check. With a target id
  configured, an event whose resolved agent id is empty or differs from it is ignored
  with reason \<open>agent_id mismatch\<close>, and the response does not depend on
  \<open>TARGET_AGENT_NAME\<close>. Without a target id and with a target name, the same holds
  for the name, with reason \<open>agent_name mismatch\<close>. With neither, the handler goes on
  to build the row whatever the agent is, and calls \<open>appendToSheet\<close> with it once the
  run id and the user id are strings.
\<close>

theorem identity_filter:
  "secretConfigured e \<and> signatureValid w e req \<and> completionEvent w req evt \<longrightarrow>
     (targetAgentId e \<noteq> [] \<and>
        (\<not> truthy (Some (resolvedAgentId evt)) \<or> resolvedAgentId evt \<noteq> JStr (targetAgentId e)) \<longrightarrow>
        POST w e req s = (ignoredBecause ''agent_id mismatch'', s)) \<and>
     (targetAgentId e \<noteq> [] \<longrightarrow> POST w (e\<lparr>TARGET_AGENT_NAME := x\<rparr>) req s = POST w e req s) \<and>
     (targetAgentId e = [] \<and> targetAgentName e \<noteq> [] \<and>
        (\<not> truthy (Some (resolvedAgentName evt)) \<or>
           resolvedAgentName evt \<noteq> JStr (targetAgentName e)) \<longrightarrow>
        POST w e req s = (ignoredBecause ''agent_name mismatch'', s)) \<and>
     (targetAgentId e = [] \<and> targetAgentName e = [] \<longrightarrow>
        POST w e req s = POST_store w e evt (resolvedAgentId evt) (resolvedAgentName evt) s \<and>
        (\<forall>rid uid. runIdOf evt = Inr rid \<and> userIdOf evt = Inr uid \<longrightarrow>
           calls (snd (POST w e req s)) = calls s @ [rowOf w evt rid uid]))"
proof (intro impI)
  assume g: "secretConfigured e \<and> signatureValid w e req \<and> completionEvent w req evt"
  note p = POST_completion [of e w req evt s]
  from g have p': "POST w (e\<lparr>TARGET_AGENT_NAME := x\<rparr>) req s =
           (if passesFilter (e\<lparr>TARGET_AGENT_NAME := x\<rparr>) evt
            then POST_store w e evt (resolvedAgentId evt) (resolvedAgentName evt) s
            else if targetAgentId e \<noteq> [] then (ignoredBecause ''agent_id mismatch'', s)
            else (ignoredBecause ''agent_name mismatch'', s))"
    using POST_completion [of "e\<lparr>TARGET_AGENT_NAME := x\<rparr>" w req evt s]
    by (simp add: name_filter_unread POST_store_name_unread)
  have f: "targetAgentId e \<noteq> [] \<Longrightarrow>
             passesFilter (e\<lparr>TARGET_AGENT_NAME := x\<rparr>) evt = passesFilter e evt"
    by (simp add: passesFilter_def name_filter_unread)
  show "(targetAgentId e \<noteq> [] \<and>
        (\<not> truthy (Some (resolvedAgentId evt)) \<or> resolvedAgentId evt \<noteq> JStr (targetAgentId e)) \<longrightarrow>
        POST w e req s = (ignoredBecause ''agent_id mismatch'', s)) \<and>
     (targetAgentId e \<noteq> [] \<longrightarrow> POST w (e\<lparr>TARGET_AGENT_NAME := x\<rparr>) req s = POST w e req s) \<and>
     (targetAgentId e = [] \<and> targetAgentName e \<noteq> [] \<and>
        (\<not> truthy (Some (resolvedAgentName evt)) \<or>
           resolvedAgentName evt \<noteq> JStr (targetAgentName e)) \<longrightarrow>
        POST w e req s = (ignoredBecause ''agent_name mismatch'', s)) \<and>
     (targetAgentId e = [] \<and> targetAgentName e = [] \<longrightarrow>
        POST w e req s = POST_store w e evt (resolvedAgentId evt) (resolvedAgentName evt) s \<and>
        (\<forall>rid uid. runIdOf evt = Inr rid \<and> userIdOf evt = Inr uid \<longrightarrow>
           calls (snd (POST w e req s)) = calls s @ [rowOf w evt rid uid]))"
  proof (intro conjI impI allI)
    assume "targetAgentId e \<noteq> [] \<and>
        (\<not> truthy (Some (resolvedAgentId evt)) \<or> resolvedAgentId evt \<noteq> JStr (targetAgentId e))"
    with g p show "POST w e req s = (ignoredBecause ''agent_id mismatch'', s)"
      by (auto simp: passesFilter_def)
  next
    assume "targetAgentId e \<noteq> []"
    with g p p' f show "POST w (e\<lparr>TARGET_AGENT_NAME := x\<rparr>) req s = POST w e req s"
      by simp
  next
    assume "targetAgentId e = [] \<and> targetAgentName e \<noteq> [] \<and>
        (\<not> truthy (Some (resolvedAgentName evt)) \<or>
           resolvedAgentName evt \<noteq> JStr (targetAgentName e))"
    with g p show "POST w e req s = (ignoredBecause ''agent_name mismatch'', s)"
      by (auto simp: passesFilter_def)
  next
    assume n: "targetAgentId e = [] \<and> targetAgentName e = []"
    with g p show a: "POST w e req s =
        POST_store w e evt (resolvedAgentId evt) (resolvedAgentName evt) s"
      by (simp add: passesFilter_def)
    fix rid uid
    assume "runIdOf evt = Inr rid \<and> userIdOf evt = Inr uid"
    then show "calls (snd (POST w e req s)) = calls s @ [rowOf w evt rid uid]"
      unfolding a by (simp add: POST_store_calls)
  qed
qed


text \<open>The four cases of C6 on the completion event of agent \<open>a1\<close>, named \<open>Agent1\<close>.\<close>

theorem identity_filter_witness:
  "POST (demoWorld demoTable) (demoEnv (Some (ustr ''a2'')) None)
        (signedRequest (ustr ''whsec'') completedBody) emptyStore
     = (ignoredBecause ''agent_id mismatch'', emptyStore) \<and>
   POST (demoWorld demoTable)
        ((demoEnv (Some (ustr ''a2'')) None)\<lparr>TARGET_AGENT_NAME := Some (ustr ''Agent1'')\<rparr>)
        (signedRequest (ustr ''whsec'') completedBody) emptyStore
     = POST (demoWorld demoTable) (demoEnv (Some (ustr ''a2'')) None)
        (signedRequest (ustr ''whsec'') completedBody) emptyStore \<and>
   POST (demoWorld demoTable) (demoEnv None (Some (ustr ''Agent2'')))
        (signedRequest (ustr ''whsec'') completedBody) emptyStore
     = (ignoredBecause ''agent_name mismatch'', emptyStore) \<and>
   calls (snd (POST (demoWorld demoTable) (demoEnv None None)
                 (signedRequest (ustr ''whsec'') completedBody) emptyStore))
     = calls emptyStore @ [rowOf (demoWorld demoTable) completedEvent [] []]"
proof -
  let ?W = "demoWorld demoTable" and ?R = "signedRequest (ustr ''whsec'') completedBody"
  note t = identity_filter [of _ ?W ?R completedEvent emptyStore]
  note g = demo_secret demo_signature demo_completion(1)
  have n: "resolvedAgentId completedEvent \<noteq> JStr (targetAgentId (demoEnv (Some (ustr ''a2'')) None))"
    "resolvedAgentName completedEvent \<noteq> JStr (targetAgentName (demoEnv None (Some (ustr ''Agent2''))))"
    "targetAgentId (demoEnv (Some (ustr ''a2'')) None) \<noteq> []"
    "targetAgentName (demoEnv None (Some (ustr ''Agent2''))) \<noteq> []"
    by (simp_all add: demo_fields demo_targets) (simp_all add: ustr_def)
  from t [of "demoEnv (Some (ustr ''a2'')) None"] g n
  have a: "POST ?W (demoEnv (Some (ustr ''a2'')) None) ?R emptyStore
             = (ignoredBecause ''agent_id mismatch'', emptyStore)"
    by blast
  from t [of "demoEnv (Some (ustr ''a2'')) None" "Some (ustr ''Agent1'')"] g n
  have b: "POST ?W ((demoEnv (Some (ustr ''a2'')) None)\<lparr>TARGET_AGENT_NAME := Some (ustr ''Agent1'')\<rparr>)
             ?R emptyStore = POST ?W (demoEnv (Some (ustr ''a2'')) None) ?R emptyStore"
    by blast
  from t [of "demoEnv None (Some (ustr ''Agent2''))"] g n demo_targets(1)
  have c: "POST ?W (demoEnv None (Some (ustr ''Agent2''))) ?R emptyStore
             = (ignoredBecause ''agent_name mismatch'', emptyStore)"
    by blast
  from t [of "demoEnv None None"] g demo_targets(1,2) demo_fields(3,4)
  have d: "calls (snd (POST ?W (demoEnv None None) ?R emptyStore))
             = calls emptyStore @ [rowOf ?W completedEvent [] []]"
    by blast
  from a b c d show ?thesis by blast
qed

text \<open>
  Claim C5 fails on the code: this request has a valid signature and a completion
  event that passes the filter, its \<open>run_id\<close> is an object with a property named
  \<open>toString\<close>, and \<open>String(...)\<close> at line 77 of \<open>route.ts\<close> throws. The handler
  returns no response and \<open>appendToSheet\<close> is not called.
\<close>

theorem POST_throws_after_all_gates:
  "secretConfigured (demoEnv None None) \<and>
   signatureValid (demoWorld demoTable) (demoEnv None None)
     (signedRequest (ustr ''whsec'') objectRunIdBody) \<and>
   completionEvent (demoWorld demoTable) (signedRequest (ustr ''whsec'') objectRunIdBody)
     objectRunIdEvent \<and>
   passesFilter (demoEnv None None) objectRunIdEvent \<and>
   POST (demoWorld demoTable) (demoEnv None None) (signedRequest (ustr ''whsec'') objectRunIdBody)
        emptyStore = (Thrown TypeError, emptyStore)"
  by (simp add: demo_secret demo_signature demo_completion demo_filter
        POST_thrown [OF demo_secret demo_signature demo_completion(3) demo_filter(2) demo_fields(9)])

text \<open>
  Claim C4 fails on the code: for the result \<open>false\<close>, which \<open>extractAgentResult\<close>
  finds, the row's \<open>dataJson\<close> is the empty string, not the text \<open>false\<close> that
  \<open>JSON.stringify\<close> gives, because line 91 of \<open>route.ts\<close> tests the result for
  truthiness.
\<close>

theorem false_result_not_serialised:
  "extractAgentResult falseResultEvent = Some (JBool False) \<and>
   JSON_stringify (demoWorld demoTable) (JBool False) = ustr ''false'' \<and>
   POST (demoWorld demoTable) (demoEnv None None) (signedRequest (ustr ''whsec'') falseResultBody)
        emptyStore
     = (handled,
        \<lparr>calls = [\<lparr>timestamp = now (demoWorld demoTable), runId = [], agentId = JStr [],
                   agentName = JStr [], userId = [], dataJson = []\<rparr>],
         rows = [[JStr (now (demoWorld demoTable)), JStr [], JStr [], JStr [], JStr [], JStr []]]\<rparr>)"
proof -
  have s: "JSON_stringify (demoWorld demoTable) (JBool False) = ustr ''false''"
    unfolding demoWorld_def by simp code_simp
  have r: "rowOf (demoWorld demoTable) falseResultEvent [] [] =
             \<lparr>timestamp = now (demoWorld demoTable), runId = [], agentId = JStr [],
              agentName = JStr [], userId = [], dataJson = []\<rparr>"
    by (simp add: rowOf_def demo_fields)
  have "POST (demoWorld demoTable) (demoEnv None None)
          (signedRequest (ustr ''whsec'') falseResultBody) emptyStore
        = (handled, emptyStore\<lparr>calls := calls emptyStore @ [rowOf (demoWorld demoTable) falseResultEvent [] []],
             rows := rows emptyStore @ [cellsOf (rowOf (demoWorld demoTable) falseResultEvent [] [])]\<rparr>)"
    by (simp add: POST_accepted [OF demo_secret demo_signature demo_completion(2) demo_filter(2)
            demo_fields(7,8)] demo_append)
  then show ?thesis
    by (simp add: s r demo_fields emptyStore_def cellsOf_def)
qed


lemma handled_distinct:
  "missingSecret \<noteq> handled" "invalidSignature \<noteq> handled" "invalidJson \<noteq> handled"
  "emptyEvent \<noteq> handled" "ignored \<noteq> handled" "ignoredBecause r \<noteq> handled"
  "Thrown err \<noteq> handled" "appendFailed \<noteq> handled"
  by (simp_all add: missingSecret_def invalidSignature_def invalidJson_def emptyEvent_def
        ignored_def ignoredBecause_def handled_def appendFailed_def json_def)

lemma appendToSheet_result:
  "appendToSheet w e r s = (Inr u, s') \<Longrightarrow>
     s' = s\<lparr>calls := calls s @ [r], rows := rows s @ [cellsOf r]\<rparr>"
  "appendToSheet w e r s = (Inl err, s') \<Longrightarrow> s' = s\<lparr>calls := calls s @ [r]\<rparr>"
  by (auto simp: appendToSheet_def cellsOf_def Let_def split: option.splits sum.splits if_splits)

lemma appendToSheet_accepting:
  assumes "appendToSheet w e r s = (Inr u, s')" "\<forall>c. sheetsAppend w' c = Inr ()"
  shows "\<exists>s2. appendToSheet w' e r' s1 = (Inr (), s2)"
  using assms
  by (auto simp: appendToSheet_def Let_def split: option.splits sum.splits if_splits)

lemma POST_outcomes:
  assumes "secretConfigured e" "signatureValid w e req" "completionEvent w req evt"
    "passesFilter e evt" "runIdOf evt = Inr rid" "userIdOf evt = Inr uid"
  shows "POST w e req s =
           (handled, s\<lparr>calls := calls s @ [rowOf w evt rid uid],
                       rows := rows s @ [cellsOf (rowOf w evt rid uid)]\<rparr>) \<and>
           (\<exists>s'. appendToSheet w e (rowOf w evt rid uid) s = (Inr (), s')) \<or>
         POST w e req s = (appendFailed, s\<lparr>calls := calls s @ [rowOf w evt rid uid]\<rparr>)"
proof (cases "appendToSheet w e (rowOf w evt rid uid) s")
  case (Pair r s')
  show ?thesis
  proof (cases r)
    case (Inl err)
    with Pair appendToSheet_result(2) [of w e "rowOf w evt rid uid" s err s']
    show ?thesis by (simp add: POST_accepted [OF assms])
  next
    case (Inr u)
    with Pair appendToSheet_result(1) [of w e "rowOf w evt rid uid" s u s']
    show ?thesis by (simp add: POST_accepted [OF assms])
  qed
qed

lemma handled_gates:
  assumes "fst (POST w e req s) = handled"
  shows "\<exists>evt rid uid. secretConfigured e \<and> signatureValid w e req \<and> completionEvent w req evt \<and>
           passesFilter e evt \<and> runIdOf evt = Inr rid \<and> userIdOf evt = Inr uid"
proof -
  from assms have "calls (snd (POST w e req s)) \<noteq> calls s \<or>
      fst (POST w e req s) = ignoredBecause ''x'' \<or> secretConfigured e \<and> signatureValid w e req \<and>
      (\<exists>evt. completionEvent w req evt)"
    by (auto simp: POST_eq POST_event_eq completionEvent_def handled_distinct
          split: if_splits sum.splits)
  with gates_passed [of w e req s "''x''"]
  obtain evt where g: "secretConfigured e" "signatureValid w e req" "completionEvent w req evt"
    by blast
  note p = POST_completion [OF g, of s]
  from assms p have f: "passesFilter e evt"
    by (auto simp: handled_distinct split: if_splits)
  with assms p have "fst (POST_store w e evt (resolvedAgentId evt) (resolvedAgentName evt) s) = handled"
    by simp
  then obtain rid uid where "runIdOf evt = Inr rid" "userIdOf evt = Inr uid"
    by (auto simp: POST_store_eq handled_distinct split: sum.splits)
  with g f show ?thesis by blast
qed

lemma world_agrees:
  assumes "hmacSha256 w' = hmacSha256 w" "JSON_parse w' = JSON_parse w"
    "JSON_stringify w' = JSON_stringify w"
  shows "signatureValid w' e req = signatureValid w e req"
    "completionEvent w' req evt = completionEvent w req evt"
    "rowOf w' evt rid uid = (rowOf w evt rid uid)\<lparr>timestamp := now w'\<rparr>"
  using assms by (simp_all add: signatureValid_def completionEvent_def rowOf_def split: option.splits)

text \<open>
  Claim C8. When a request is answered with \<open>{ok: true}\<close>, one row was handed to
  \<open>appendToSheet\<close> and added to the sheet; the same request handled again, at any
  later clock reading, hands the same row with the new timestamp to \<open>appendToSheet\<close>
  again. The second response is \<open>{ok: true}\<close> with a second row in the sheet, or
  \<open>Sheets append failed\<close> when the service fails the call; it is \<open>{ok: true}\<close>
  whenever the service accepts every call. Nothing of the first run is read.
\<close>

theorem replay_appends_again:
  "fst (POST w e req s) = handled \<and> hmacSha256 w' = hmacSha256 w \<and>
   JSON_parse w' = JSON_parse w \<and> JSON_stringify w' = JSON_stringify w \<longrightarrow>
     (\<exists>r. POST w e req s = (handled, s\<lparr>calls := calls s @ [r], rows := rows s @ [cellsOf r]\<rparr>) \<and>
          calls (snd (POST w' e req (snd (POST w e req s))))
            = calls s @ [r, r\<lparr>timestamp := now w'\<rparr>] \<and>
          (fst (POST w' e req (snd (POST w e req s))) = handled \<and>
             rows (snd (POST w' e req (snd (POST w e req s))))
               = rows s @ [cellsOf r, cellsOf (r\<lparr>timestamp := now w'\<rparr>)]
           \<or> fst (POST w' e req (snd (POST w e req s))) = appendFailed \<and>
             rows (snd (POST w' e req (snd (POST w e req s)))) = rows s @ [cellsOf r]) \<and>
          ((\<forall>c. sheetsAppend w' c = Inr ()) \<longrightarrow>
             fst (POST w' e req (snd (POST w e req s))) = handled))"
proof (intro impI)
  assume a: "fst (POST w e req s) = handled \<and> hmacSha256 w' = hmacSha256 w \<and>
   JSON_parse w' = JSON_parse w \<and> JSON_stringify w' = JSON_stringify w"
  then obtain evt rid uid where g: "secretConfigured e" "signatureValid w e req"
      "completionEvent w req evt" "passesFilter e evt" "runIdOf evt = Inr rid"
      "userIdOf evt = Inr uid"
    using handled_gates [of w e req s] by blast
  let ?r = "rowOf w evt rid uid"
  let ?s1 = "s\<lparr>calls := calls s @ [?r], rows := rows s @ [cellsOf ?r]\<rparr>"
  from a POST_outcomes [OF g, of s]
  have 1: "POST w e req s = (handled, ?s1)"
    and acc: "\<exists>s'. appendToSheet w e ?r s = (Inr (), s')"
    by (auto simp: handled_distinct)
  from a have ag: "hmacSha256 w' = hmacSha256 w" "JSON_parse w' = JSON_parse w"
    "JSON_stringify w' = JSON_stringify w"
    by simp_all
  note wa = world_agrees [OF ag]
  from g have g': "secretConfigured e" "signatureValid w' e req" "completionEvent w' req evt"
      "passesFilter e evt" "runIdOf evt = Inr rid" "userIdOf evt = Inr uid"
    by (simp_all add: wa)
  let ?r' = "?r\<lparr>timestamp := now w'\<rparr>"
  note 2 = POST_outcomes [OF g', of ?s1, unfolded wa(3)]
  have 3: "(\<forall>c. sheetsAppend w' c = Inr ()) \<longrightarrow> fst (POST w' e req ?s1) = handled"
  proof
    assume "\<forall>c. sheetsAppend w' c = Inr ()"
    with acc obtain s2 where "appendToSheet w' e ?r' ?s1 = (Inr (), s2)"
      using appendToSheet_accepting [of w e ?r s _ _ w' ?r' ?s1] by blast
    then show "fst (POST w' e req ?s1) = handled"
      by (simp add: POST_accepted [OF g', unfolded wa(3)])
  qed
  from 1 2 3 show "\<exists>r. POST w e req s = (handled, s\<lparr>calls := calls s @ [r], rows := rows s @ [cellsOf r]\<rparr>) \<and>
          calls (snd (POST w' e req (snd (POST w e req s))))
            = calls s @ [r, r\<lparr>timestamp := now w'\<rparr>] \<and>
          (fst (POST w' e req (snd (POST w e req s))) = handled \<and>
             rows (snd (POST w' e req (snd (POST w e req s))))
               = rows s @ [cellsOf r, cellsOf (r\<lparr>timestamp := now w'\<rparr>)]
           \<or> fst (POST w' e req (snd (POST w e req s))) = appendFailed \<and>
             rows (snd (POST w' e req (snd (POST w e req s)))) = rows s @ [cellsOf r]) \<and>
          ((\<forall>c. sheetsAppend w' c = Inr ()) \<longrightarrow>
             fst (POST w' e req (snd (POST w e req s))) = handled)"
    by (intro exI [of _ ?r]) auto
qed


text \<open>The same signed completion event handled twice: two equal rows.\<close>

theorem replay_appends_again_witness:
  "fst (POST (demoWorld demoTable) (demoEnv (Some (ustr ''a1'')) None)
          (signedRequest (ustr ''whsec'') completedBody)
          (snd (POST (demoWorld demoTable) (demoEnv (Some (ustr ''a1'')) None)
                  (signedRequest (ustr ''whsec'') completedBody) emptyStore))) = handled \<and>
   calls (snd (POST (demoWorld demoTable) (demoEnv (Some (ustr ''a1'')) None)
          (signedRequest (ustr ''whsec'') completedBody)
          (snd (POST (demoWorld demoTable) (demoEnv (Some (ustr ''a1'')) None)
                  (signedRequest (ustr ''whsec'') completedBody) emptyStore))))
     = [rowOf (demoWorld demoTable) completedEvent [] [],
        rowOf (demoWorld demoTable) completedEvent [] []] \<and>
   rows (snd (POST (demoWorld demoTable) (demoEnv (Some (ustr ''a1'')) None)
          (signedRequest (ustr ''whsec'') completedBody)
          (snd (POST (demoWorld demoTable) (demoEnv (Some (ustr ''a1'')) None)
                  (signedRequest (ustr ''whsec'') completedBody) emptyStore))))
     = [cellsOf (rowOf (demoWorld demoTable) completedEvent [] []),
        cellsOf (rowOf (demoWorld demoTable) completedEvent [] [])]"
proof -
  let ?W = "demoWorld demoTable" and ?E = "demoEnv (Some (ustr ''a1'')) None"
  let ?R = "signedRequest (ustr ''whsec'') completedBody"
  let ?row = "rowOf ?W completedEvent [] []"
  have first: "POST ?W ?E ?R emptyStore
      = (handled, emptyStore\<lparr>calls := calls emptyStore @ [?row],
                             rows := rows emptyStore @ [cellsOf ?row]\<rparr>)"
    by (rule POST_completed_accepted)
  have accepts: "\<forall>c. sheetsAppend ?W c = Inr ()"
    by (simp add: demoWorld_def)
  have stamp: "?row\<lparr>timestamp := now ?W\<rparr> = ?row"
    by (simp add: rowOf_def)
  from replay_appends_again [of ?W ?E ?R emptyStore ?W] first accepts
  obtain r where r: "POST ?W ?E ?R emptyStore
        = (handled, emptyStore\<lparr>calls := calls emptyStore @ [r],
                               rows := rows emptyStore @ [cellsOf r]\<rparr>)"
      "calls (snd (POST ?W ?E ?R (snd (POST ?W ?E ?R emptyStore))))
         = calls emptyStore @ [r, r\<lparr>timestamp := now ?W\<rparr>]"
      "fst (POST ?W ?E ?R (snd (POST ?W ?E ?R emptyStore))) = handled \<and>
         rows (snd (POST ?W ?E ?R (snd (POST ?W ?E ?R emptyStore))))
           = rows emptyStore @ [cellsOf r, cellsOf (r\<lparr>timestamp := now ?W\<rparr>)]
       \<or> fst (POST ?W ?E ?R (snd (POST ?W ?E ?R emptyStore))) = appendFailed \<and>
         rows (snd (POST ?W ?E ?R (snd (POST ?W ?E ?R emptyStore)))) = rows emptyStore @ [cellsOf r]"
      "fst (POST ?W ?E ?R (snd (POST ?W ?E ?R emptyStore))) = handled"
    by auto
  from r(1) first have "calls (emptyStore\<lparr>calls := calls emptyStore @ [r],
                               rows := rows emptyStore @ [cellsOf r]\<rparr>)
      = calls (emptyStore\<lparr>calls := calls emptyStore @ [?row],
                             rows := rows emptyStore @ [cellsOf ?row]\<rparr>)"
    by simp
  then have "r = ?row" by simp
  with r(2,3,4) stamp show ?thesis
    by (auto simp: emptyStore_def handled_distinct(8) [symmetric])
qed

text \<open>
  What holds of every request: \<open>POST\<close> either leaves the store as it is, or calls
  \<open>appendToSheet\<close> exactly once, and then the sheet has one whole row more when the
  response is \<open>{ok: true}\<close> and is unchanged when it is \<open>Sheets append failed\<close>.
  Every response it returns carries a JSON object.
\<close>

lemma append_outcome:
  assumes "(case appendToSheet w e r s of
              (Inl err, s') \<Rightarrow> (appendFailed, s')
            | (Inr u, s') \<Rightarrow> (handled, s')) = (out, s2)"
  shows "calls s2 = calls s @ [r] \<and>
         (out = handled \<and> rows s2 = rows s @ [cellsOf r] \<or> out = appendFailed \<and> rows s2 = rows s)"
proof (cases "appendToSheet w e r s")
  case (Pair res s')
  show ?thesis
  proof (cases res)
    case (Inl err)
    with Pair assms appendToSheet_result(2) [of w e r s err s'] show ?thesis by auto
  next
    case (Inr u)
    with Pair assms appendToSheet_result(1) [of w e r s u s'] show ?thesis by auto
  qed
qed

lemma POST_store_effect:
  assumes "POST_store w e evt (resolvedAgentId evt) (resolvedAgentName evt) s = (out, s2)"
  shows "(\<exists>err. out = Thrown err) \<and> s2 = s \<or>
         (\<exists>r. calls s2 = calls s @ [r] \<and>
            (out = handled \<and> rows s2 = rows s @ [cellsOf r] \<or>
             out = appendFailed \<and> rows s2 = rows s))"
proof (cases "runIdOf evt")
  case (Inl err)
  with assms show ?thesis by (auto simp: POST_store_eq)
next
  case rid: (Inr rid)
  show ?thesis
  proof (cases "userIdOf evt")
    case (Inl err)
    with rid assms show ?thesis by (auto simp: POST_store_eq)
  next
    case (Inr uid)
    with rid assms append_outcome [of w e "rowOf w evt rid uid" s out s2] show ?thesis
      by (auto simp: POST_store_eq)
  qed
qed

lemma appendFailed_distinct:
  "missingSecret \<noteq> appendFailed" "invalidSignature \<noteq> appendFailed"
  "invalidJson \<noteq> appendFailed" "emptyEvent \<noteq> appendFailed" "ignored \<noteq> appendFailed"
  "ignoredBecause r \<noteq> appendFailed" "Thrown err \<noteq> appendFailed"
  by (simp_all add: missingSecret_def invalidSignature_def invalidJson_def emptyEvent_def
        ignored_def ignoredBecause_def appendFailed_def json_def ustr_def)

lemma POST_event_effect:
  assumes "POST_event w e evt s = (out, s2)"
  shows "s2 = s \<and> out \<noteq> handled \<and> out \<noteq> appendFailed \<or>
         (\<exists>r. calls s2 = calls s @ [r] \<and>
            (out = handled \<and> rows s2 = rows s @ [cellsOf r] \<or>
             out = appendFailed \<and> rows s2 = rows s))"
proof (cases "eventTypeOf evt")
  case (Inl err)
  with assms have "out = Thrown err" "s2 = s" by (simp_all add: POST_event_eq)
  then show ?thesis by (simp add: handled_distinct appendFailed_distinct)
next
  case (Inr t)
  show ?thesis
  proof (cases "testCompleted t")
    case False
    with Inr assms have "out = ignored" "s2 = s" by (simp_all add: POST_event_eq)
    then show ?thesis by (simp add: handled_distinct appendFailed_distinct)
  next
    case True
    note f = POST_event_filtered [OF Inr True, of w e s]
    show ?thesis
    proof (cases "passesFilter e evt")
      case True
      with f assms
      have "POST_store w e evt (resolvedAgentId evt) (resolvedAgentName evt) s = (out, s2)"
        by simp
      from POST_store_effect [OF this] show ?thesis
        by (auto simp: handled_distinct appendFailed_distinct)
    next
      case False
      with f assms have "s2 = s" "\<exists>r. out = ignoredBecause r"
        by (auto split: if_splits)
      then show ?thesis by (auto simp: handled_distinct appendFailed_distinct)
    qed
  qed
qed

lemma POST_effect:
  assumes "POST w e req s = (out, s2)"
  shows "s2 = s \<and> out \<noteq> handled \<and> out \<noteq> appendFailed \<or>
         (\<exists>r. calls s2 = calls s @ [r] \<and>
            (out = handled \<and> rows s2 = rows s @ [cellsOf r] \<or>
             out = appendFailed \<and> rows s2 = rows s))"
proof (cases "\<exists>evt. POST w e req s = POST_event w e evt s")
  case True
  with assms POST_event_effect show ?thesis by metis
next
  case False
  with assms have n: "\<And>evt. POST_event w e evt s \<noteq> (out, s2)" by metis
  from assms have "s2 = s"
    "out = missingSecret \<or> out = invalidSignature \<or> out = invalidJson \<or> out = emptyEvent"
    by (auto simp: POST_eq n split: if_splits sum.splits)
  then show ?thesis by (auto simp: handled_distinct appendFailed_distinct)
qed

lemma POST_structured:
  assumes "fst (POST w e req s) = Returned resp"
  shows "\<exists>kvs. payload resp = JObj kvs"
proof -
  have j: "\<And>kvs code st. (json kvs code, st) = (Returned resp, st) \<Longrightarrow> \<exists>k. payload resp = JObj k"
    by (auto simp: json_def)
  obtain out s2 where p: "POST w e req s = (out, s2)" by (cases "POST w e req s")
  with assms have o: "out = Returned resp" by simp
  from p o show ?thesis
    unfolding POST_def POST_event_def POST_store_def Let_def
    by (auto split: sum.splits if_splits prod.splits simp: json_def)
qed

section \<open>The chat panel: properties\<close>

lemma onClientTool_record_fact:
  assumes "name call = ustr ''record_fact''"
  shows "onClientTool p call =
           (case factIdOf call of
              Inl err \<Rightarrow> (Inl err, p, [])
            | Inr fid \<Rightarrow>
                (case factTextOf call of
                   Inl err \<Rightarrow> (Inl err, p, [])
                 | Inr ftext \<Rightarrow>
                     if fid = [] \<or> fid \<in> processedFacts p then (Inr True, p, [])
                     else (Inr True, p\<lparr>processedFacts := insert fid (processedFacts p)\<rparr>,
                           [saveAction fid ftext])))"
proof -
  have "ustr ''record_fact'' \<noteq> ustr ''switch_theme''" by (simp add: ustr_def)
  with assms show ?thesis
    unfolding onClientTool_def factIdOf_def factTextOf_def saveAction_def by simp
qed

lemma onClientTool_effect:
  "snd (onClientTool p call) = (p, []) \<or>
   (\<exists>t. snd (onClientTool p call) = (p, [OnThemeRequest t])) \<or>
   (\<exists>fid ftext. fid \<notin> processedFacts p \<and>
      snd (onClientTool p call)
        = (p\<lparr>processedFacts := insert fid (processedFacts p)\<rparr>, [saveAction fid ftext]))"
proof (cases "name call = ustr ''record_fact''")
  case True
  then show ?thesis
    by (auto simp: onClientTool_record_fact split: sum.splits)
next
  case False
  then show ?thesis
    by (auto simp: onClientTool_def Let_def)
qed

lemma savedFacts_append: "savedFacts (cs @ ds) = savedFacts cs @ savedFacts ds"
  by (induction cs rule: savedFacts.induct) auto

lemma step_effect:
  assumes "\<not> clears ev"
  shows "\<exists>new. savedFacts (snd (step p ev)) = new \<and> distinct new \<and>
           set new \<inter> processedFacts p = {} \<and>
           processedFacts (fst (step p ev)) = processedFacts p \<union> set new"
proof (cases ev)
  case (ClientTool call)
  from onClientTool_effect [of p call] show ?thesis
    unfolding ClientTool by (auto simp: saveAction_def)
qed (use assms in auto)

lemma run_saves_once:
  "\<forall>ev\<in>set evs. \<not> clears ev \<Longrightarrow>
     distinct (savedFacts (snd (run p evs))) \<and>
     set (savedFacts (snd (run p evs))) \<inter> processedFacts p = {} \<and>
     processedFacts (fst (run p evs)) = processedFacts p \<union> set (savedFacts (snd (run p evs)))"
proof (induction evs arbitrary: p)
  case Nil
  then show ?case by simp
next
  case (Cons ev evs)
  obtain p1 cs1 where s: "step p ev = (p1, cs1)" by (cases "step p ev")
  obtain p2 cs2 where r: "run p1 evs = (p2, cs2)" by (cases "run p1 evs")
  from Cons.prems have "\<not> clears ev" by simp
  from step_effect [OF this, of p] s
  have 1: "distinct (savedFacts cs1)" "set (savedFacts cs1) \<inter> processedFacts p = {}"
    "processedFacts p1 = processedFacts p \<union> set (savedFacts cs1)"
    by simp_all
  from Cons.IH [of p1] Cons.prems r
  have 2: "distinct (savedFacts cs2)" "set (savedFacts cs2) \<inter> processedFacts p1 = {}"
    "processedFacts p2 = processedFacts p1 \<union> set (savedFacts cs2)"
    by simp_all
  from 1 2 show ?case
    by (auto simp: s r savedFacts_append)
qed


lemma collapseSpaces_spaces: "list_all (\<lambda>c. isWhiteSpace c \<longrightarrow> c = 32) (collapseSpaces t)"
  by (induction t rule: collapseSpaces.induct) auto

lemma collapseSpaces_head:
  "t \<noteq> [] \<Longrightarrow> \<not> isWhiteSpace (hd t) \<Longrightarrow>
     collapseSpaces t \<noteq> [] \<and> hd (collapseSpaces t) = hd t"
  by (cases t) auto

lemma singleSpaced_Cons:
  "singleSpaced (a # s) \<longleftrightarrow> (s = [] \<or> \<not> (isWhiteSpace a \<and> isWhiteSpace (hd s))) \<and> singleSpaced s"
  by (cases s) auto

lemma collapseSpaces_single: "singleSpaced (collapseSpaces t)"
proof (induction t rule: collapseSpaces.induct)
  case 1
  then show ?case by simp
next
  case (2 c cs)
  show ?case
  proof (cases "isWhiteSpace c")
    case True
    let ?rest = "dropWhile isWhiteSpace cs"
    have "collapseSpaces ?rest = [] \<or> \<not> isWhiteSpace (hd (collapseSpaces ?rest))"
    proof (cases "?rest = []")
      case True
      then have "collapseSpaces ?rest = []" by (simp only: collapseSpaces.simps)
      then show ?thesis by (rule disjI1)
    next
      case False
      then have "\<not> isWhiteSpace (hd ?rest)" by (rule hd_dropWhile)
      with False collapseSpaces_head [of ?rest] show ?thesis by metis
    qed
    with True 2 show ?thesis by (auto simp: singleSpaced_Cons)
  next
    case False
    with 2 show ?thesis by (auto simp: singleSpaced_Cons)
  qed
qed

lemma singleSpaced_append: "singleSpaced (xs @ ys) \<Longrightarrow> singleSpaced xs \<and> singleSpaced ys"
proof (induction xs)
  case Nil
  then show ?case by simp
next
  case (Cons a xs)
  then show ?case
    by (cases xs; cases ys) (auto simp: singleSpaced_Cons)
qed

lemma rev_dropWhile_rev: "xs = rev (dropWhile P (rev xs)) @ rev (takeWhile P (rev xs))"
proof -
  have "rev (takeWhile P (rev xs) @ dropWhile P (rev xs)) = rev (rev xs)"
    by (simp only: takeWhile_dropWhile_id)
  then show ?thesis
    by (simp only: rev_append rev_rev_ident)
qed

lemma trim_inner:
  "dropWhile isWhiteSpace s =
     trim s @ rev (takeWhile isWhiteSpace (rev (dropWhile isWhiteSpace s)))"
  unfolding trim_def by (rule rev_dropWhile_rev)

lemma trim_decompose: "\<exists>pre post. s = pre @ trim s @ post"
proof -
  have "s = takeWhile isWhiteSpace s @ dropWhile isWhiteSpace s"
    by (simp only: takeWhile_dropWhile_id)
  then have "s = takeWhile isWhiteSpace s @ trim s @
                 rev (takeWhile isWhiteSpace (rev (dropWhile isWhiteSpace s)))"
    using trim_inner [of s] by metis
  then show ?thesis by blast
qed

lemma trim_ends:
  assumes "trim s \<noteq> []"
  shows "\<not> isWhiteSpace (hd (trim s))" "\<not> isWhiteSpace (last (trim s))"
proof -
  let ?u = "dropWhile isWhiteSpace s"
  let ?v = "dropWhile isWhiteSpace (rev ?u)"
  from assms have v: "?v \<noteq> []" by (metis rev_is_Nil_conv trim_def)
  then have "\<not> isWhiteSpace (hd ?v)" by (rule hd_dropWhile)
  moreover from v have "last (rev ?v) = hd ?v" by (metis last_rev)
  ultimately show "\<not> isWhiteSpace (last (trim s))"
    unfolding trim_def by metis
  from v have "rev ?u \<noteq> []" by (metis dropWhile.simps(1))
  then have u: "?u \<noteq> []" by (metis rev_is_Nil_conv)
  then have hu: "\<not> isWhiteSpace (hd ?u)" by (rule hd_dropWhile)
  from assms trim_inner [of s] have "hd ?u = hd (trim s)" by (metis hd_append2)
  with hu show "\<not> isWhiteSpace (hd (trim s))" by metis
qed

lemma tidy_text: "tidy (trim (collapseSpaces t))"
proof -
  let ?c = "collapseSpaces t"
  obtain pre post where d: "?c = pre @ trim ?c @ post"
    using trim_decompose by blast
  have "list_all (\<lambda>c. isWhiteSpace c \<longrightarrow> c = 32) (pre @ trim ?c @ post)"
    using collapseSpaces_spaces [of t] d by simp
  then have 1: "list_all (\<lambda>c. isWhiteSpace c \<longrightarrow> c = 32) (trim ?c)" by simp
  have "singleSpaced (pre @ trim ?c @ post)"
    using collapseSpaces_single [of t] d by simp
  then have 2: "singleSpaced (trim ?c)"
    using singleSpaced_append by blast
  from 1 2 trim_ends [of ?c] show ?thesis
    by (auto simp: tidy_def)
qed


text \<open>
  Claim C10, as the code has it. For a \<open>record_fact\<close> invocation whose \<open>fact_id\<close>
  and \<open>fact_text\<close> convert to strings: with an empty id, or an id already in
  \<open>processedFacts\<close>, the handler returns \<open>{success: true}\<close>, invokes nothing and
  leaves the set as it is; with a new id it adds the id and invokes
  \<open>onWidgetAction\<close> once, with a fact text that is tidy. When a conversion throws, so
  does the handler, with nothing invoked and the set as it is. Between two clearings
  of the set no id is saved twice, nor an id the set already held. A thread change and
  a chat reset empty the set, after which an id seen before is saved again.
\<close>

theorem record_fact_once:
  "(name call = ustr ''record_fact'' \<and> factIdOf call = Inr fid \<and> factTextOf call = Inr ftext \<longrightarrow>
      ((fid = [] \<or> fid \<in> processedFacts p) \<longrightarrow> onClientTool p call = (Inr True, p, [])) \<and>
      (fid \<noteq> [] \<and> fid \<notin> processedFacts p \<longrightarrow>
         onClientTool p call =
           (Inr True, p\<lparr>processedFacts := insert fid (processedFacts p)\<rparr>,
            [saveAction fid ftext])) \<and>
      (fid \<noteq> [] \<longrightarrow>
         snd (snd (onClientTool (onThreadChange p) call)) = [saveAction fid ftext] \<and>
         snd (snd (onClientTool (handleResetChat b r p) call)) = [saveAction fid ftext])) \<and>
   (name call = ustr ''record_fact'' \<and>
      (factIdOf call = Inl err \<or> factIdOf call = Inr fid \<and> factTextOf call = Inl err) \<longrightarrow>
      onClientTool p call = (Inl err, p, [])) \<and>
   tidy (trim (collapseSpaces ftext)) \<and>
   ((\<forall>ev\<in>set evs. \<not> clears ev) \<longrightarrow>
      distinct (savedFacts (snd (run p evs))) \<and>
      set (savedFacts (snd (run p evs))) \<inter> processedFacts p = {}) \<and>
   processedFacts (onThreadChange p) = {} \<and>
   processedFacts (handleResetChat b r p) = {}"
proof (intro conjI impI)
  assume a: "name call = ustr ''record_fact'' \<and> factIdOf call = Inr fid \<and>
             factTextOf call = Inr ftext"
  { assume "fid = [] \<or> fid \<in> processedFacts p"
    with a show "onClientTool p call = (Inr True, p, [])"
      by (auto simp: onClientTool_record_fact) }
  { assume "fid \<noteq> [] \<and> fid \<notin> processedFacts p"
    with a show "onClientTool p call =
           (Inr True, p\<lparr>processedFacts := insert fid (processedFacts p)\<rparr>,
            [saveAction fid ftext])"
      by (simp add: onClientTool_record_fact) }
  { assume "fid \<noteq> []"
    with a show "snd (snd (onClientTool (onThreadChange p) call)) = [saveAction fid ftext]"
      "snd (snd (onClientTool (handleResetChat b r p) call)) = [saveAction fid ftext]"
      by (simp_all add: onClientTool_record_fact onThreadChange_def handleResetChat_def) }
next
  assume "name call = ustr ''record_fact'' \<and>
      (factIdOf call = Inl err \<or> factIdOf call = Inr fid \<and> factTextOf call = Inl err)"
  then show "onClientTool p call = (Inl err, p, [])"
    by (auto simp: onClientTool_record_fact)
next
  show "tidy (trim (collapseSpaces ftext))" by (rule tidy_text)
next
  assume "\<forall>ev\<in>set evs. \<not> clears ev"
  then show "distinct (savedFacts (snd (run p evs)))"
    "set (savedFacts (snd (run p evs))) \<inter> processedFacts p = {}"
    using run_saves_once [of evs p] by simp_all
qed (simp_all add: onThreadChange_def handleResetChat_def)


lemma recordFact_fields:
  "name (recordFact a b) = ustr ''record_fact''"
  "factIdOf (recordFact (JStr i) b) = Inr i"
  "factTextOf (recordFact a (JStr t)) = Inr t"
  "factIdOf (recordFact (JObj [(ustr ''toString'', v)]) b) = Inl TypeError"
  "factTextOf (recordFact a (JObj [(ustr ''toString'', v)])) = Inl TypeError"
  by (simp_all add: recordFact_def factIdOf_def factTextOf_def coalesce_def String_js_def
        ustr_def)

text \<open>
  The cases of C10 on a panel that has seen the fact \<open>f1\<close>: \<open>f1\<close> again, the new
  fact \<open>f2\<close>, \<open>f1\<close> after a thread change, a fact id that cannot be converted, and
  three invocations in a row.
\<close>

theorem record_fact_once_witness:
  "onClientTool (initialPanel\<lparr>processedFacts := {ustr ''f1''}\<rparr>)
       (recordFact (JStr (ustr ''f1'')) (JStr (ustr ''  the  sky '')))
     = (Inr True, initialPanel\<lparr>processedFacts := {ustr ''f1''}\<rparr>, []) \<and>
   onClientTool (initialPanel\<lparr>processedFacts := {ustr ''f1''}\<rparr>)
       (recordFact (JStr (ustr ''f2'')) (JStr (ustr ''  the  sky '')))
     = (Inr True, initialPanel\<lparr>processedFacts := {ustr ''f2'', ustr ''f1''}\<rparr>,
        [OnWidgetAction \<lparr>actionType = ustr ''save'', factId = ustr ''f2'',
                         factText = ustr ''the sky''\<rparr>]) \<and>
   snd (snd (onClientTool (onThreadChange (initialPanel\<lparr>processedFacts := {ustr ''f1''}\<rparr>))
       (recordFact (JStr (ustr ''f1'')) (JStr (ustr ''  the  sky '')))))
     = [OnWidgetAction \<lparr>actionType = ustr ''save'', factId = ustr ''f1'',
                        factText = ustr ''the sky''\<rparr>] \<and>
   onClientTool (initialPanel\<lparr>processedFacts := {ustr ''f1''}\<rparr>)
       (recordFact (JObj [(ustr ''toString'', JBool True)]) (JStr []))
     = (Inl TypeError, initialPanel\<lparr>processedFacts := {ustr ''f1''}\<rparr>, []) \<and>
   distinct (savedFacts (snd (run (initialPanel\<lparr>processedFacts := {ustr ''f1''}\<rparr>)
       [ClientTool (recordFact (JStr (ustr ''f2'')) (JStr (ustr ''  the  sky ''))),
        ClientTool (recordFact (JStr (ustr ''f2'')) (JStr (ustr ''  the  sky ''))),
        ClientTool (recordFact (JStr (ustr ''f1'')) (JStr (ustr ''  the  sky '')))])))"
proof -
  let ?p = "initialPanel\<lparr>processedFacts := {ustr ''f1''}\<rparr>"
  let ?t = "ustr ''  the  sky ''"
  let ?seen = "recordFact (JStr (ustr ''f1'')) (JStr ?t)"
  let ?new = "recordFact (JStr (ustr ''f2'')) (JStr ?t)"
  let ?bad = "recordFact (JObj [(ustr ''toString'', JBool True)]) (JStr [])"
  have ids: "ustr ''f1'' \<noteq> []" "ustr ''f2'' \<noteq> []" "ustr ''f1'' \<in> processedFacts ?p"
    "ustr ''f2'' \<notin> processedFacts ?p"
    by (simp_all add: ustr_def)
  have tx: "trim (collapseSpaces ?t) = ustr ''the sky''"
    by (simp add: trim_def isWhiteSpace_def ustr_def)
  note f = recordFact_fields
  from record_fact_once [where call = ?seen and fid = "ustr ''f1''" and ftext = ?t and p = ?p]
    f(1,2,3) ids
  have a: "onClientTool ?p ?seen = (Inr True, ?p, [])"
    and c: "snd (snd (onClientTool (onThreadChange ?p) ?seen)) = [saveAction (ustr ''f1'') ?t]"
    by blast+
  from record_fact_once [where call = ?new and fid = "ustr ''f2''" and ftext = ?t and p = ?p]
    f(1,2,3) ids
  have b: "onClientTool ?p ?new =
             (Inr True, ?p\<lparr>processedFacts := insert (ustr ''f2'') (processedFacts ?p)\<rparr>,
              [saveAction (ustr ''f2'') ?t])"
    by blast
  from record_fact_once [where call = ?bad and err = TypeError and p = ?p] f(1,4)
  have d: "onClientTool ?p ?bad = (Inl TypeError, ?p, [])"
    by blast
  from record_fact_once [where p = ?p and evs = "[ClientTool ?new, ClientTool ?new, ClientTool ?seen]"]
  have e: "distinct (savedFacts (snd (run ?p [ClientTool ?new, ClientTool ?new, ClientTool ?seen])))"
    by simp
  from a b c d e show ?thesis
    by (simp add: saveAction_def tx)
qed

text \<open>
  Claim C10 as it is worded fails twice. An invocation with an empty \<open>fact_id\<close>
  whose \<open>fact_text\<close> is an object with a property named \<open>toString\<close> does not return
  \<open>{success: true}\<close>: the text is converted before the id is looked at, and the
  conversion throws. And within one widget lifetime the fact \<open>f1\<close> is saved twice
  when a thread change comes between.
\<close>

theorem record_fact_counterexample:
  "onClientTool initialPanel (recordFact (JStr []) (JObj [(ustr ''toString'', JBool True)]))
     = (Inl TypeError, initialPanel, []) \<and>
   savedFacts (snd (run initialPanel
       [ClientTool (recordFact (JStr (ustr ''f1'')) (JStr (ustr ''a''))),
        ThreadChange,
        ClientTool (recordFact (JStr (ustr ''f1'')) (JStr (ustr ''a'')))]))
     = [ustr ''f1'', ustr ''f1'']"
proof -
  have i: "ustr ''f1'' \<noteq> []" by (simp add: ustr_def)
  have "onClientTool initialPanel (recordFact (JStr []) (JObj [(ustr ''toString'', JBool True)]))
     = (Inl TypeError, initialPanel, [])"
    by (simp add: onClientTool_record_fact recordFact_fields)
  moreover have "\<And>p. processedFacts p = {} \<Longrightarrow>
      onClientTool p (recordFact (JStr (ustr ''f1'')) (JStr (ustr ''a'')))
        = (Inr True, p\<lparr>processedFacts := {ustr ''f1''}\<rparr>,
           [saveAction (ustr ''f1'') (ustr ''a'')])"
    using i by (simp add: onClientTool_record_fact recordFact_fields)
  ultimately show ?thesis
    by (simp add: initialPanel_def onThreadChange_def saveAction_def)
qed

end
